theory Spec2Isabelle
  imports Complex_Main "HOL-Library.List_Lexorder" "HOL-Library.Char_ord"
begin

section \<open>Cell values and frames\<close>

text \<open>
  The engine of \<^verbatim>\<open>backend/data_processor.py\<close> keeps pandas frames. A frame is modelled
  by its column labels, in order, and its rows, in order; a row gives the cell of every
  label. Cells are modelled by their values: a missing cell (NaN, NaT, None), a boolean,
  an integer, a float (an exact real number here: rounding error, infinities and
  overflow of machine floats are outside the model), a text, or an instant of time
  (an integer that only has to respect the order of instants). The dtype of a column is
  not stored: behaviour of pandas that depends on the dtype alone, not on the values,
  is outside the model.
\<close>

datatype val = VNA | VBool bool | VInt int | VNum real | VStr string | VTime int

type_synonym row = "string \<Rightarrow> val"

record dataframe =
  columns :: "string list"
  rows :: "row list"

text \<open>Exceptions that escape a method: every \<^verbatim>\<open>raise\<close> the model can reach.\<close>

datatype exn =
    KeyError string
  | MergeError
  | NonNumeric string
  | ValueError
  | TypeError
  | AttributeError
  | ZeroDivisionError

text \<open>Python's truth value of a scalar (\<^verbatim>\<open>if filters.get('dealer')\<close>).\<close>

fun truthy :: "val \<Rightarrow> bool" where
  "truthy VNA = False"
| "truthy (VBool b) = b"
| "truthy (VInt i) = (i \<noteq> 0)"
| "truthy (VNum x) = (x \<noteq> 0)"
| "truthy (VStr s) = (s \<noteq> [])"
| "truthy (VTime t) = True"

text \<open>The number a cell stands for, when it is a number (booleans count as 0 and 1).\<close>

fun num_of :: "val \<Rightarrow> real option" where
  "num_of (VBool b) = Some (if b then 1 else 0)"
| "num_of (VInt i) = Some (of_int i)"
| "num_of (VNum x) = Some x"
| "num_of VNA = None"
| "num_of (VStr s) = None"
| "num_of (VTime t) = None"

text \<open>
  Elementwise \<^verbatim>\<open>==\<close> of a column with a scalar, and the equality of join and group
  keys: numbers compare by value across bool, int and float, texts and instants compare
  with their own kind, and a missing value equals nothing, itself included.
\<close>

definition py_eq :: "val \<Rightarrow> val \<Rightarrow> bool" where
  "py_eq a b =
     (case (a, b) of
        (VStr s, VStr t) \<Rightarrow> s = t
      | (VTime s, VTime t) \<Rightarrow> s = t
      | _ \<Rightarrow> (case (num_of a, num_of b) of (Some x, Some y) \<Rightarrow> x = y | _ \<Rightarrow> False))"

text \<open>
  \<^verbatim>\<open>Series.sum()\<close> and the \<^verbatim>\<open>'sum'\<close> aggregate: missing cells are skipped, numbers are
  added. A text or an instant in the column leaves the numeric meaning of the sum
  (pandas concatenates or raises); the model reports it as \<open>None\<close>.
\<close>

fun summand :: "val \<Rightarrow> real option" where
  "summand VNA = Some 0"
| "summand v = num_of v"

fun series_sum :: "val list \<Rightarrow> real option" where
  "series_sum [] = Some 0"
| "series_sum (v # vs) =
     (case summand v of
        None \<Rightarrow> None
      | Some x \<Rightarrow> (case series_sum vs of None \<Rightarrow> None | Some y \<Rightarrow> Some (x + y)))"

text \<open>\<^verbatim>\<open>df[c]\<close>: the cells of one column, top to bottom.\<close>

definition series :: "dataframe \<Rightarrow> string \<Rightarrow> val list" where
  "series df c = map (\<lambda>r. r c) (rows df)"

text \<open>
  \<^verbatim>\<open>df[c] = ...\<close>: assigning a column computed row by row; a new label is appended,
  an existing one is overwritten in place.
\<close>

definition set_column :: "string \<Rightarrow> (row \<Rightarrow> val) \<Rightarrow> dataframe \<Rightarrow> dataframe" where
  "set_column c f df =
     \<lparr> columns = (if c \<in> set (columns df) then columns df else columns df @ [c]),
       rows = map (\<lambda>r. r(c := f r)) (rows df) \<rparr>"

text \<open>\<^verbatim>\<open>df.to_dict('records')\<close>: one mapping per row, keyed by the frame's labels.\<close>

definition to_dict_records :: "dataframe \<Rightarrow> (string \<times> val) list list" where
  "to_dict_records df = map (\<lambda>r. map (\<lambda>c. (c, r c)) (columns df)) (rows df)"

section \<open>Column Resolver\<close>

text \<open>\<^verbatim>\<open>_find_column\<close>: the first candidate that is a label of the frame, else None.\<close>

fun find_column :: "dataframe \<Rightarrow> string list \<Rightarrow> string option" where
  "find_column df [] = None"
| "find_column df (c # cs) = (if c \<in> set (columns df) then Some c else find_column df cs)"

section \<open>Merge Builder\<close>

definition policy_candidates :: "string list" where
  "policy_candidates = [''Policy No'', ''PolicyNo'', ''POLICY_NO'', ''Policy Number'']"

text \<open>
  \<^verbatim>\<open>claims_df.groupby(key)\<close>: the groups are the distinct non-missing keys (pandas drops
  missing keys). pandas orders the groups by key; the left join below does not see
  that order, and the model lists them by first occurrence.
\<close>

fun distinct_keys :: "val list \<Rightarrow> val list" where
  "distinct_keys [] = []"
| "distinct_keys (k # ks) = k # filter (\<lambda>k'. \<not> py_eq k' k) (distinct_keys ks)"

definition group_keys :: "dataframe \<Rightarrow> string \<Rightarrow> val list" where
  "group_keys df key = distinct_keys (filter (\<lambda>k. k \<noteq> VNA) (series df key))"

definition group_rows :: "dataframe \<Rightarrow> string \<Rightarrow> val \<Rightarrow> row list" where
  "group_rows df key k = filter (\<lambda>r. py_eq (r key) k) (rows df)"

text \<open>
  One aggregate of one group: \<^verbatim>\<open>(col, 'sum') if col in claims_df.columns else
  (key, 'size')\<close>.
\<close>

definition sum_or_size :: "dataframe \<Rightarrow> string \<Rightarrow> row list \<Rightarrow> exn + val" where
  "sum_or_size df c grp =
     (if c \<in> set (columns df)
      then (case series_sum (map (\<lambda>r. r c) grp) of
              None \<Rightarrow> Inl (NonNumeric c)
            | Some x \<Rightarrow> Inr (VNum x))
      else Inr (VNum (of_nat (length grp))))"

definition agg_row :: "dataframe \<Rightarrow> string \<Rightarrow> val \<Rightarrow> exn + row" where
  "agg_row df key k =
     (let grp = group_rows df key k in
      case sum_or_size df ''Total Auth Amount'' grp of
        Inl e \<Rightarrow> Inl e
      | Inr amount \<Rightarrow>
      (case sum_or_size df ''Labor'' grp of
        Inl e \<Rightarrow> Inl e
      | Inr labor \<Rightarrow>
      (case sum_or_size df ''Parts'' grp of
        Inl e \<Rightarrow> Inl e
      | Inr parts \<Rightarrow>
          Inr ((\<lambda>c. VNA)
                (key := k,
                 ''claim_count'' := VInt (int (length grp)),
                 ''total_claim_amount'' := amount,
                 ''total_labor'' := labor,
                 ''total_parts'' := parts)))))"

fun collect :: "('a \<Rightarrow> exn + 'b) \<Rightarrow> 'a list \<Rightarrow> exn + 'b list" where
  "collect f [] = Inr []"
| "collect f (x # xs) =
     (case f x of
        Inl e \<Rightarrow> Inl e
      | Inr y \<Rightarrow> (case collect f xs of Inl e \<Rightarrow> Inl e | Inr ys \<Rightarrow> Inr (y # ys)))"

definition agg_columns :: "string list" where
  "agg_columns = [''claim_count'', ''total_claim_amount'', ''total_labor'', ''total_parts'']"

text \<open>\<^verbatim>\<open>claims_df.groupby(key).agg(...).reset_index()\<close>.\<close>

definition claims_agg :: "dataframe \<Rightarrow> string \<Rightarrow> exn + dataframe" where
  "claims_agg df key =
     (case collect (agg_row df key) (group_keys df key) of
        Inl e \<Rightarrow> Inl e
      | Inr rs \<Rightarrow> Inr \<lparr> columns = key # agg_columns, rows = rs \<rparr>)"

text \<open>
  \<^verbatim>\<open>left.merge(right, left_on=lk, right_on=rk, how='left')\<close> for a right frame whose keys
  are distinct, as the aggregate's are. Every left row is kept, in order, with the cells
  of the right row of equal key, or missing cells when there is none. The right key
  column is dropped when both keys have one name. A label on both sides gets the
  suffixes \<^verbatim>\<open>_x\<close> and \<^verbatim>\<open>_y\<close>; when the suffixed labels are not distinct the merge is
  refused (a frame with a repeated label is not represented in this model).
\<close>

definition suffixed :: "string list \<Rightarrow> string \<Rightarrow> string \<Rightarrow> string" where
  "suffixed overlap sfx c = (if c \<in> set overlap then c @ sfx else c)"

definition relabel :: "(string \<Rightarrow> string) \<Rightarrow> string list \<Rightarrow> row \<Rightarrow> row" where
  "relabel f cols r = (\<lambda>c'. case find (\<lambda>c. f c = c') cols of Some c \<Rightarrow> r c | None \<Rightarrow> VNA)"

definition merge_left :: "dataframe \<Rightarrow> dataframe \<Rightarrow> string \<Rightarrow> string \<Rightarrow> exn + dataframe" where
  "merge_left left right lk rk =
     (let rcols = (if lk = rk then removeAll rk (columns right) else columns right);
          overlap = filter (\<lambda>c. c \<in> set rcols) (columns left);
          lcols' = map (suffixed overlap ''_x'') (columns left);
          rcols' = map (suffixed overlap ''_y'') rcols
      in if \<not> distinct (lcols' @ rcols') then Inl MergeError
         else Inr \<lparr> columns = lcols' @ rcols',
                    rows = map (\<lambda>l.
                      let r = (case find (\<lambda>r. py_eq (r rk) (l lk)) (rows right) of
                                 Some r \<Rightarrow> r | None \<Rightarrow> (\<lambda>c. VNA))
                      in (\<lambda>c'. if c' \<in> set rcols'
                               then relabel (suffixed overlap ''_y'') rcols r c'
                               else relabel (suffixed overlap ''_x'') (columns left) l c'))
                      (rows left) \<rparr>)"

text \<open>\<^verbatim>\<open>fillna(0)\<close>, \<^verbatim>\<open>> 0\<close> and \<^verbatim>\<open>astype(int)\<close> on one cell.\<close>

definition fillna0 :: "val \<Rightarrow> val" where
  "fillna0 v = (if v = VNA then VNum 0 else v)"

definition gt0 :: "val \<Rightarrow> bool" where
  "gt0 v = (case num_of v of Some x \<Rightarrow> 0 < x | None \<Rightarrow> False)"

fun astype_int :: "val \<Rightarrow> val" where
  "astype_int (VNum x) = VInt (if 0 \<le> x then \<lfloor>x\<rfloor> else \<lceil>x\<rceil>)"
| "astype_int (VBool b) = VInt (if b then 1 else 0)"
| "astype_int v = v"

text \<open>
  The body of \<^verbatim>\<open>_build_merged\<close> on the two working frames. Reading a column the
  merge has renamed is the \<^verbatim>\<open>KeyError\<close> of \<^verbatim>\<open>self.merged_df['claim_count']\<close>.
\<close>

definition merged_view :: "dataframe \<Rightarrow> dataframe \<Rightarrow> exn + dataframe" where
  "merged_view sales claims =
     (case (find_column sales policy_candidates, find_column claims policy_candidates) of
        (Some sales_policy_col, Some claims_policy_col) \<Rightarrow>
          (case claims_agg claims claims_policy_col of
             Inl e \<Rightarrow> Inl e
           | Inr agg \<Rightarrow>
          (case merge_left sales agg sales_policy_col claims_policy_col of
             Inl e \<Rightarrow> Inl e
           | Inr m \<Rightarrow>
               if ''claim_count'' \<notin> set (columns m) then Inl (KeyError ''claim_count'')
               else
                 let m1 = set_column ''has_claim'' (\<lambda>r. VBool (gt0 (fillna0 (r ''claim_count'')))) m;
                     m2 = set_column ''claim_count'' (\<lambda>r. astype_int (fillna0 (r ''claim_count''))) m1
                 in if ''total_claim_amount'' \<notin> set (columns m2)
                    then Inl (KeyError ''total_claim_amount'')
                    else Inr (set_column ''total_claim_amount''
                                (\<lambda>r. fillna0 (r ''total_claim_amount'')) m2)))
      | _ \<Rightarrow>
          Inr (set_column ''total_claim_amount'' (\<lambda>r. VInt 0)
                (set_column ''claim_count'' (\<lambda>r. VInt 0)
                  (set_column ''has_claim'' (\<lambda>r. VBool False) sales))))"

section \<open>The session state\<close>

text \<open>
  A filter specification is a Python dict from dimension names to scalars, in insertion
  order. A cached result is a mapping (\<^verbatim>\<open>get_summary\<close>) or a sequence of records (the
  breakdowns and insights).
\<close>

type_synonym filters = "(string \<times> val) list"

type_synonym cache_key = "string \<times> (string \<times> val) list option"

datatype result = Mapping "(string \<times> val) list" | Records "(string \<times> val) list list"

record change_entry =
  timestamp :: string
  entry_table :: string
  entry_row_id :: int
  entry_column :: string
  old_value :: val
  new_value :: val

record processor =
  original_sales_df :: "dataframe option"
  original_claims_df :: "dataframe option"
  sales_df :: "dataframe option"
  claims_df :: "dataframe option"
  merged_df :: "dataframe option"
  change_log :: "change_entry list"
  metrics_dirty :: bool
  query_cache :: "cache_key \<rightharpoonup> result"

text \<open>\<^verbatim>\<open>__init__\<close>: nothing loaded, empty log, empty cache.\<close>

definition init :: processor where
  "init = \<lparr> original_sales_df = None, original_claims_df = None, sales_df = None,
            claims_df = None, merged_df = None, change_log = [], metrics_dirty = True,
            query_cache = Map.empty \<rparr>"

text \<open>
  What the engine takes from Python and pandas without defining it: the parsers behind
  \<^verbatim>\<open>float(s)\<close>, \<^verbatim>\<open>int(s)\<close> and \<^verbatim>\<open>pd.to_datetime\<close> (\<open>None\<close> and \<open>Unparseable\<close>
  stand for the exception they raise), \<^verbatim>\<open>str(v)\<close>, \<^verbatim>\<open>str.lower\<close>, \<^verbatim>\<open>round\<close>, the two
  date formats, and the order \<^verbatim>\<open>sort_values\<close> gives the rows. Every definition below
  takes them as the parameter \<open>env\<close>, and every theorem holds for each choice of them.
\<close>

datatype dtres = Unparseable | NaT | At int

record pyenv =
  float_of_str :: "string \<Rightarrow> real option"
  int_of_str :: "string \<Rightarrow> int option"
  parse_datetime :: "val \<Rightarrow> dtres"
  str_of :: "val \<Rightarrow> string"
  lower :: "string \<Rightarrow> string"
  round_to :: "real \<Rightarrow> nat \<Rightarrow> real"
  strftime :: "int \<Rightarrow> string"
  isoformat :: "int \<Rightarrow> string"
  sort_values :: "string \<Rightarrow> bool \<Rightarrow> row list \<Rightarrow> row list"

text \<open>\<^verbatim>\<open>clear_cache\<close>.\<close>

definition clear_cache :: "processor \<Rightarrow> processor" where
  "clear_cache st = st\<lparr> query_cache := Map.empty, metrics_dirty := True \<rparr>"

text \<open>\<^verbatim>\<open>_build_merged\<close>: no effect unless both working frames are there.\<close>

definition build_merged :: "processor \<Rightarrow> exn + processor" where
  "build_merged st =
     (case (sales_df st, claims_df st) of
        (Some sales, Some claims) \<Rightarrow>
          (case merged_view sales claims of
             Inl e \<Rightarrow> Inl e
           | Inr m \<Rightarrow> Inr (st\<lparr> merged_df := Some m \<rparr>))
      | _ \<Rightarrow> Inr st)"

section \<open>Versioned Store\<close>

text \<open>
  \<^verbatim>\<open>df.insert(0, '_row_id', range(len(df)))\<close>: pandas refuses a label that is already
  there.
\<close>

definition insert_row_id :: "dataframe \<Rightarrow> exn + dataframe" where
  "insert_row_id df =
     (if ''_row_id'' \<in> set (columns df) then Inl ValueError
      else Inr \<lparr> columns = ''_row_id'' # columns df,
                 rows = map (\<lambda>(i, r). r(''_row_id'' := VInt (int i))) (enumerate 0 (rows df)) \<rparr>)"

text \<open>
  \<^verbatim>\<open>load_excel\<close> from the line \<^verbatim>\<open># Add row IDs\<close> on, given the two sheets as read and
  with their labels normalised (choosing the sheets and reading the file is the parser's
  part). Every field of the session is overwritten, so the result does not depend on the
  state before.
\<close>

definition load_excel :: "dataframe \<Rightarrow> dataframe \<Rightarrow> exn + processor" where
  "load_excel sales_sheet claims_sheet =
     (case insert_row_id sales_sheet of
        Inl e \<Rightarrow> Inl e
      | Inr original_sales \<Rightarrow>
     (case insert_row_id claims_sheet of
        Inl e \<Rightarrow> Inl e
      | Inr original_claims \<Rightarrow>
     (case build_merged
             ((clear_cache init)\<lparr> original_sales_df := Some original_sales,
                                   original_claims_df := Some original_claims,
                                   sales_df := Some original_sales,
                                   claims_df := Some original_claims \<rparr>) of
        Inl e \<Rightarrow> Inl e
      | Inr st \<Rightarrow> Inr (st\<lparr> metrics_dirty := True, change_log := [] \<rparr>))))"

subsection \<open>Validator\<close>

text \<open>
  The failure results of the mutation API. The source returns
  \<^verbatim>\<open>{'success': False, 'error': msg}\<close>; each constructor stands for one message:
  \<^verbatim>\<open>'No data loaded'\<close>, \<^verbatim>\<open>'Column {column} not found'\<close>, \<^verbatim>\<open>'Cannot edit row ID'\<close>,
  \<^verbatim>\<open>'Row {row_id} not found'\<close>, \<^verbatim>\<open>'{column} must be >= 0'\<close>,
  \<^verbatim>\<open>'{column} must be numeric'\<close> and \<^verbatim>\<open>'Claim Status must be one of: ...'\<close>.
\<close>

datatype failure =
    NoDataLoaded
  | ColumnNotFound string
  | CannotEditRowId
  | RowNotFound int
  | MustBeNonNegative string
  | MustBeNumeric string
  | InvalidClaimStatus

definition numeric_cols :: "string \<Rightarrow> string list" where
  "numeric_cols table =
     (if table = ''sales''
      then [''Gross Premium'', ''Risk Premium'', ''CC'', ''Cylinder'', ''Start KM'', ''End KM'',
            ''Year'', ''Month'']
      else if table = ''claims''
      then [''Labor'', ''Parts'', ''Total Auth Amount'', ''Claim KM'', ''CC'', ''Year'', ''Month'']
      else [])"

definition valid_statuses :: "val list" where
  "valid_statuses = [VStr ''Approved'', VStr ''Rejected'', VStr ''Reversed'']"

text \<open>\<^verbatim>\<open>float(value)\<close>; \<open>None\<close> is its \<^verbatim>\<open>ValueError\<close> or \<^verbatim>\<open>TypeError\<close>.\<close>

fun py_float :: "pyenv \<Rightarrow> val \<Rightarrow> real option" where
  "py_float env (VInt i) = Some (of_int i)"
| "py_float env (VNum x) = Some x"
| "py_float env (VBool b) = Some (if b then 1 else 0)"
| "py_float env (VStr s) = float_of_str env s"
| "py_float env VNA = None"
| "py_float env (VTime t) = None"

text \<open>\<^verbatim>\<open>_validate_value\<close>: the coerced value, or the failure.\<close>

definition validate_value :: "pyenv \<Rightarrow> string \<Rightarrow> string \<Rightarrow> val \<Rightarrow> failure + val" where
  "validate_value env table column value =
     (if column \<in> set (numeric_cols table)
      then (case py_float env value of
              None \<Rightarrow> Inl (MustBeNumeric column)
            | Some v \<Rightarrow>
                if column \<in> set [''Gross Premium'', ''Risk Premium''] \<and> v < 0
                then Inl (MustBeNonNegative column)
                else if column \<in> set [''Total Auth Amount'', ''Labor'', ''Parts''] \<and> v < 0
                then Inl (MustBeNonNegative column)
                else Inr (VNum v))
      else if column = ''Claim Status'' \<and> value \<notin> set valid_statuses
      then Inl InvalidClaimStatus
      else Inr value)"

text \<open>\<^verbatim>\<open>_serialize\<close>: missing becomes None, an instant its ISO text.\<close>

fun serialize :: "pyenv \<Rightarrow> val \<Rightarrow> val" where
  "serialize env (VTime t) = VStr (isoformat env t)"
| "serialize env v = v"

subsection \<open>Mutation API\<close>

datatype update_result = UpdateFailed failure | Updated val val

datatype reset_result = ResetFailed failure | Reverted nat

text \<open>The mask \<^verbatim>\<open>df['_row_id'] == row_id\<close>, row by row.\<close>

definition has_row_id :: "int \<Rightarrow> row \<Rightarrow> bool" where
  "has_row_id row_id r = py_eq (r ''_row_id'') (VInt row_id)"

text \<open>\<^verbatim>\<open>df.loc[mask, column] = value\<close>: every row of the mask gets the value.\<close>

definition loc_assign :: "int \<Rightarrow> string \<Rightarrow> val \<Rightarrow> dataframe \<Rightarrow> dataframe" where
  "loc_assign row_id column v df =
     df\<lparr> rows := map (\<lambda>r. if has_row_id row_id r then r(column := v) else r) (rows df) \<rparr>"

text \<open>
  \<^verbatim>\<open>df.loc[mask, column].values[0]\<close>: the cell of the first row of the mask, None when
  the mask is empty (the source tests \<^verbatim>\<open>mask.any()\<close> before it reads).
\<close>

definition cell_at :: "dataframe \<Rightarrow> int \<Rightarrow> string \<Rightarrow> val option" where
  "cell_at df row_id column = map_option (\<lambda>r. r column) (find (has_row_id row_id) (rows df))"

text \<open>
  \<^verbatim>\<open>update_cell\<close>. \<open>now\<close> is \<^verbatim>\<open>datetime.now().isoformat()\<close>. The frame addressed is
  \<^verbatim>\<open>self.sales_df if table == 'sales' else self.claims_df\<close>: every table name other than
  \<^verbatim>\<open>'sales'\<close> addresses the claims frame.
\<close>

definition frame_of :: "processor \<Rightarrow> string \<Rightarrow> dataframe option" where
  "frame_of st table = (if table = ''sales'' then sales_df st else claims_df st)"

text \<open>
  The second half of \<^verbatim>\<open>update_cell\<close>, from \<^verbatim>\<open># Apply change\<close> on: the cell is
  written, the cache cleared, the entry logged and the merged view rebuilt.
\<close>

definition apply_change ::
  "pyenv \<Rightarrow> string \<Rightarrow> string \<Rightarrow> int \<Rightarrow> string \<Rightarrow> val \<Rightarrow> val \<Rightarrow> dataframe \<Rightarrow> processor
     \<Rightarrow> exn + (update_result \<times> processor)" where
  "apply_change env now table row_id column old validated_value df st =
     (let df' = loc_assign row_id column validated_value df;
          st1 = (if table = ''sales'' then st\<lparr> sales_df := Some df' \<rparr>
                 else st\<lparr> claims_df := Some df' \<rparr>);
          st2 = clear_cache st1;
          st3 = st2\<lparr> change_log := change_log st2 @
                  [\<lparr> timestamp = now, entry_table = table,
                     entry_row_id = row_id, entry_column = column,
                     old_value = serialize env old,
                     new_value = serialize env validated_value \<rparr>] \<rparr>
      in (case build_merged st3 of
            Inl e \<Rightarrow> Inl e
          | Inr st4 \<Rightarrow>
              Inr (Updated (serialize env old) (serialize env validated_value),
                   st4\<lparr> metrics_dirty := True \<rparr>)))"

definition update_cell ::
  "pyenv \<Rightarrow> string \<Rightarrow> string \<Rightarrow> int \<Rightarrow> string \<Rightarrow> val \<Rightarrow> processor
     \<Rightarrow> exn + (update_result \<times> processor)" where
  "update_cell env now table row_id column value st =
     (case frame_of st table of
        None \<Rightarrow> Inr (UpdateFailed NoDataLoaded, st)
      | Some df \<Rightarrow>
          if column \<notin> set (columns df) then Inr (UpdateFailed (ColumnNotFound column), st)
          else if column = ''_row_id'' then Inr (UpdateFailed CannotEditRowId, st)
          else if ''_row_id'' \<notin> set (columns df) then Inl (KeyError ''_row_id'')
          else
            (case find (has_row_id row_id) (rows df) of
               None \<Rightarrow> Inr (UpdateFailed (RowNotFound row_id), st)
             | Some r0 \<Rightarrow>
                 (case validate_value env table column value of
                    Inl err \<Rightarrow> Inr (UpdateFailed err, st)
                  | Inr validated_value \<Rightarrow>
                      apply_change env now table row_id column (r0 column) validated_value df st)))"

text \<open>\<^verbatim>\<open>bulk_update\<close>: one \<^verbatim>\<open>update_cell\<close> per entry, in order, no rollback.\<close>

fun bulk_results ::
  "pyenv \<Rightarrow> string \<Rightarrow> string \<Rightarrow> (int \<times> string \<times> val) list \<Rightarrow> processor
     \<Rightarrow> exn + (update_result list \<times> processor)" where
  "bulk_results env now table [] st = Inr ([], st)"
| "bulk_results env now table ((row_id, column, value) # us) st =
     (case update_cell env now table row_id column value st of
        Inl e \<Rightarrow> Inl e
      | Inr (r, st') \<Rightarrow>
          (case bulk_results env now table us st' of
             Inl e \<Rightarrow> Inl e
           | Inr (rs, st'') \<Rightarrow> Inr (r # rs, st'')))"

text \<open>\<^verbatim>\<open>reset_data\<close>.\<close>

definition reset_data :: "processor \<Rightarrow> exn + (reset_result \<times> processor)" where
  "reset_data st =
     (case original_sales_df st of
        None \<Rightarrow> Inr (ResetFailed NoDataLoaded, st)
      | Some original_sales \<Rightarrow>
          (case original_claims_df st of
             None \<Rightarrow> Inl AttributeError
           | Some original_claims \<Rightarrow>
               (case build_merged (st\<lparr> sales_df := Some original_sales,
                                        claims_df := Some original_claims \<rparr>) of
                  Inl e \<Rightarrow> Inl e
                | Inr st1 \<Rightarrow>
                    let st2 = clear_cache st1
                    in Inr (Reverted (length (change_log st2)), st2\<lparr> change_log := [] \<rparr>))))"

section \<open>Filter Pipeline\<close>

text \<open>\<^verbatim>\<open>filters.get(k)\<close>: the value of the dimension, None when it is absent.\<close>

definition fget :: "filters \<Rightarrow> string \<Rightarrow> val" where
  "fget filters k = (case map_of filters k of Some v \<Rightarrow> v | None \<Rightarrow> VNA)"

text \<open>\<^verbatim>\<open>filters.get(k) and filters[k] != 'All'\<close>.\<close>

definition active :: "filters \<Rightarrow> string \<Rightarrow> bool" where
  "active filters k = (truthy (fget filters k) \<and> fget filters k \<noteq> VStr ''All'')"

text \<open>\<^verbatim>\<open>result[mask]\<close>: the rows of the mask, in order, under the same labels.\<close>

definition keep_rows :: "(row \<Rightarrow> bool) \<Rightarrow> dataframe \<Rightarrow> dataframe" where
  "keep_rows p df = df\<lparr> rows := filter p (rows df) \<rparr>"

definition bind_exn :: "exn + 'a \<Rightarrow> ('a \<Rightarrow> exn + 'b) \<Rightarrow> exn + 'b" where
  "bind_exn m f = (case m of Inl e \<Rightarrow> Inl e | Inr x \<Rightarrow> f x)"

text \<open>\<^verbatim>\<open>int(value)\<close>: truncation of a float, the parser on a text.\<close>

definition trunc :: "real \<Rightarrow> int" where
  "trunc x = (if 0 \<le> x then \<lfloor>x\<rfloor> else \<lceil>x\<rceil>)"

fun py_int :: "pyenv \<Rightarrow> val \<Rightarrow> exn + int" where
  "py_int env (VInt i) = Inr i"
| "py_int env (VNum x) = Inr (trunc x)"
| "py_int env (VBool b) = Inr (if b then 1 else 0)"
| "py_int env (VStr s) = (case int_of_str env s of None \<Rightarrow> Inl ValueError | Some i \<Rightarrow> Inr i)"
| "py_int env VNA = Inl TypeError"
| "py_int env (VTime t) = Inl TypeError"

text \<open>
  \<^verbatim>\<open>pd.to_datetime\<close> on one value: a missing value is NaT, an instant is itself, anything
  else goes through the parser.
\<close>

definition to_datetime :: "pyenv \<Rightarrow> val \<Rightarrow> dtres" where
  "to_datetime env v = (case v of VNA \<Rightarrow> NaT | VTime t \<Rightarrow> At t | _ \<Rightarrow> parse_datetime env v)"

text \<open>The equality dimensions: dealer, product, make, claim status; year and month.\<close>

definition eq_filter :: "string option \<Rightarrow> val \<Rightarrow> dataframe \<Rightarrow> dataframe" where
  "eq_filter col v df =
     (case col of None \<Rightarrow> df | Some c \<Rightarrow> keep_rows (\<lambda>r. py_eq (r c) v) df)"

definition present :: "dataframe \<Rightarrow> string \<Rightarrow> string option" where
  "present df c = (if c \<in> set (columns df) then Some c else None)"

definition int_filter :: "pyenv \<Rightarrow> string \<Rightarrow> val \<Rightarrow> dataframe \<Rightarrow> exn + dataframe" where
  "int_filter env c v df =
     (if c \<in> set (columns df)
      then bind_exn (py_int env v) (\<lambda>i. Inr (keep_rows (\<lambda>r. py_eq (r c) (VInt i)) df))
      else Inr df)"

text \<open>
  One date bound:
  \<^verbatim>\<open>try: result = result[pd.to_datetime(result[date_col]) >= pd.to_datetime(bound)]\<close>
  \<^verbatim>\<open>except Exception: pass\<close>. Converting the column raises when one of its cells does not
  parse, converting the bound raises when it does not parse; either way the frame stays
  as it is. A comparison with NaT is false.
\<close>

definition date_filter :: "pyenv \<Rightarrow> (int \<Rightarrow> int \<Rightarrow> bool) \<Rightarrow> val \<Rightarrow> dataframe \<Rightarrow> dataframe" where
  "date_filter env cmp bound df =
     (case find_column df [''Policy Sold Date'', ''Failure Date''] of
        None \<Rightarrow> df
      | Some date_col \<Rightarrow>
          if list_ex (\<lambda>r. to_datetime env (r date_col) = Unparseable) (rows df) then df
          else (case to_datetime env bound of
                  Unparseable \<Rightarrow> df
                | NaT \<Rightarrow> keep_rows (\<lambda>r. False) df
                | At b \<Rightarrow>
                    keep_rows (\<lambda>r. case to_datetime env (r date_col) of
                                      At t \<Rightarrow> cmp t b | _ \<Rightarrow> False) df))"

text \<open>\<^verbatim>\<open>search in str(v).lower()\<close>: the term occurs somewhere in the text.\<close>

fun is_prefix :: "string \<Rightarrow> string \<Rightarrow> bool" where
  "is_prefix [] ys = True"
| "is_prefix (x # xs) [] = False"
| "is_prefix (x # xs) (y # ys) = (x = y \<and> is_prefix xs ys)"

fun contains :: "string \<Rightarrow> string \<Rightarrow> bool" where
  "contains [] needle = (needle = [])"
| "contains (c # cs) needle = (is_prefix needle (c # cs) \<or> contains cs needle)"

definition search_filter :: "pyenv \<Rightarrow> val \<Rightarrow> dataframe \<Rightarrow> exn + dataframe" where
  "search_filter env v df =
     (case v of
        VStr s \<Rightarrow>
          Inr (keep_rows (\<lambda>r. list_ex (\<lambda>c. contains (lower env (str_of env (r c))) (lower env s))
                                    (columns df)) df)
      | _ \<Rightarrow> Inl AttributeError)"

text \<open>
  \<^verbatim>\<open>_apply_filters\<close>: the nine dimensions in the order of the source, in three parts:
  dealer, product, year, month and make; the two date bounds; the search term and the
  claim status. The labels do not change along the way, so every column is resolved on
  the frame given.
\<close>

definition before_dates :: "pyenv \<Rightarrow> dataframe \<Rightarrow> filters \<Rightarrow> exn + dataframe" where
  "before_dates env df filters =
     (let r1 = (if active filters ''dealer''
                then eq_filter (find_column df [''Dealer'', ''Dealer AJA'']) (fget filters ''dealer'') df
                else df);
          r2 = (if active filters ''product''
                then eq_filter (find_column df [''Product'', ''Coverage'']) (fget filters ''product'') r1
                else r1)
      in bind_exn (if active filters ''year'' then int_filter env ''Year'' (fget filters ''year'') r2
                   else Inr r2) (\<lambda>r3.
         bind_exn (if active filters ''month'' then int_filter env ''Month'' (fget filters ''month'') r3
                   else Inr r3) (\<lambda>r4.
         Inr (if active filters ''make''
              then eq_filter (present df ''Make'') (fget filters ''make'') r4 else r4))))"

definition date_from_filter :: "pyenv \<Rightarrow> filters \<Rightarrow> dataframe \<Rightarrow> dataframe" where
  "date_from_filter env filters df =
     (if truthy (fget filters ''date_from'')
      then date_filter env (\<lambda>t b. b \<le> t) (fget filters ''date_from'') df else df)"

definition date_to_filter :: "pyenv \<Rightarrow> filters \<Rightarrow> dataframe \<Rightarrow> dataframe" where
  "date_to_filter env filters df =
     (if truthy (fget filters ''date_to'')
      then date_filter env (\<lambda>t b. t \<le> b) (fget filters ''date_to'') df else df)"

definition after_dates :: "pyenv \<Rightarrow> dataframe \<Rightarrow> filters \<Rightarrow> dataframe \<Rightarrow> exn + dataframe" where
  "after_dates env df filters r7 =
     bind_exn (if truthy (fget filters ''search'')
               then search_filter env (fget filters ''search'') r7 else Inr r7) (\<lambda>r8.
       Inr (if active filters ''claim_status''
            then eq_filter (present df ''Claim Status'') (fget filters ''claim_status'') r8
            else r8))"

definition apply_filters :: "pyenv \<Rightarrow> dataframe \<Rightarrow> filters \<Rightarrow> exn + dataframe" where
  "apply_filters env df filters =
     bind_exn (before_dates env df filters) (\<lambda>r5.
       after_dates env df filters (date_to_filter env filters (date_from_filter env filters r5)))"

section \<open>Query Cache\<close>

text \<open>
  \<^verbatim>\<open>_get_cache_key\<close>: the method name with None for an absent or empty specification,
  else with its items sorted by dimension name.
\<close>

definition get_cache_key :: "string \<Rightarrow> filters option \<Rightarrow> cache_key" where
  "get_cache_key method_name filters =
     (case filters of
        None \<Rightarrow> (method_name, None)
      | Some f \<Rightarrow> if f = [] then (method_name, None) else (method_name, Some (sort_key fst f)))"

text \<open>\<^verbatim>\<open>filters = filters or {}\<close>.\<close>

definition or_empty :: "filters option \<Rightarrow> filters" where
  "or_empty filters = (case filters of None \<Rightarrow> [] | Some f \<Rightarrow> f)"

section \<open>Aggregation Library\<close>

subsection \<open>Summary\<close>

text \<open>\<^verbatim>\<open>float(df[c].sum()) if c in df.columns else 0\<close>.\<close>

definition col_total :: "dataframe \<Rightarrow> string \<Rightarrow> exn + real" where
  "col_total df c =
     (if c \<in> set (columns df)
      then (case series_sum (series df c) of None \<Rightarrow> Inl (NonNumeric c) | Some x \<Rightarrow> Inr x)
      else Inr 0)"

text \<open>\<^verbatim>\<open>Series.nunique()\<close>: the number of distinct values that are not missing.\<close>

definition nunique :: "dataframe \<Rightarrow> string \<Rightarrow> nat" where
  "nunique df c = length (group_keys df c)"

text \<open>
  The body of \<^verbatim>\<open>get_summary\<close> after its guards, on the three frames: the value it
  stores in the cache and returns. The merged view always has the column
  \<^verbatim>\<open>has_claim\<close>.
\<close>

definition compute_summary ::
  "pyenv \<Rightarrow> dataframe \<Rightarrow> dataframe \<Rightarrow> dataframe option \<Rightarrow> filters \<Rightarrow> exn + result" where
  "compute_summary env sales_frame claims_frame merged filters =
     bind_exn (apply_filters env sales_frame filters) (\<lambda>sales.
     bind_exn (apply_filters env claims_frame filters) (\<lambda>claims.
     bind_exn (col_total sales ''Gross Premium'') (\<lambda>total_premium.
     bind_exn (col_total sales ''Risk Premium'') (\<lambda>total_risk_premium.
     bind_exn (col_total claims ''Total Auth Amount'') (\<lambda>total_claims_amount.
     bind_exn (case merged of
                 None \<Rightarrow> Inr 0
               | Some m \<Rightarrow>
                   bind_exn (apply_filters env m filters) (\<lambda>merged_filtered.
                     if ''has_claim'' \<notin> set (columns merged_filtered)
                     then Inl (KeyError ''has_claim'')
                     else (case series_sum (series merged_filtered ''has_claim'') of
                             None \<Rightarrow> Inl (NonNumeric ''has_claim'')
                           | Some n \<Rightarrow> Inr (trunc n)))) (\<lambda>policies_with_claims.
     let total_policies = length (rows sales);
         total_claims = length (rows claims);
         claim_rate = (if total_policies > 0
                       then real_of_int policies_with_claims / real total_policies * 100 else 0);
         loss_ratio = (if total_premium > 0
                       then total_claims_amount / total_premium * 100 else 0);
         avg_claim_cost = (if total_claims > 0
                           then total_claims_amount / real total_claims else 0);
         avg_premium = (if total_policies > 0
                        then total_premium / real total_policies else 0)
     in Inr (Mapping
          [(''totalPremium'', VNum (round_to env total_premium 2)),
           (''totalRiskPremium'', VNum (round_to env total_risk_premium 2)),
           (''totalClaimsAmount'', VNum (round_to env total_claims_amount 2)),
           (''totalPolicies'', VInt (int total_policies)),
           (''totalClaims'', VInt (int total_claims)),
           (''claimRate'', VNum (round_to env claim_rate 1)),
           (''lossRatio'', VNum (round_to env loss_ratio 1)),
           (''avgClaimCost'', VNum (round_to env avg_claim_cost 2)),
           (''avgPremium'', VNum (round_to env avg_premium 2)),
           (''policiesWithClaims'', VInt policies_with_claims),
           (''uniqueMakes'', VInt (if ''Make'' \<in> set (columns sales)
                                   then int (nunique sales ''Make'') else 0))])))))))"

text \<open>
  \<^verbatim>\<open>get_summary\<close>: a cached value is returned as it is; with nothing loaded the result
  is the empty mapping and nothing is cached. Filtering the claims frame when it is
  None is the \<^verbatim>\<open>AttributeError\<close> of \<^verbatim>\<open>df.copy()\<close>.
\<close>

definition get_summary :: "pyenv \<Rightarrow> filters option \<Rightarrow> processor \<Rightarrow> exn + (result \<times> processor)" where
  "get_summary env filters st =
     (let cache_key = get_cache_key ''get_summary'' filters in
      case query_cache st cache_key of
        Some res \<Rightarrow> Inr (res, st)
      | None \<Rightarrow>
          (case sales_df st of
             None \<Rightarrow> Inr (Mapping [], st)
           | Some sales_frame \<Rightarrow>
               (case claims_df st of
                  None \<Rightarrow> Inl AttributeError
                | Some claims_frame \<Rightarrow>
                    bind_exn (compute_summary env sales_frame claims_frame (merged_df st)
                                (or_empty filters)) (\<lambda>res.
                      Inr (res, st\<lparr> query_cache := (query_cache st)(cache_key \<mapsto> res) \<rparr>)))))"

subsection \<open>Paginated raw view\<close>

record raw_page =
  out_rows :: "(string \<times> val) list list"
  out_columns :: "string list option"
  out_total :: int
  out_page :: int
  out_pages :: int
  out_limit :: "int option"

text \<open>The result for an unknown table or with nothing loaded; it has four keys only.\<close>

definition empty_page :: raw_page where
  "empty_page = \<lparr> out_rows = [], out_columns = None, out_total = 0, out_page = 1,
                  out_pages = 0, out_limit = None \<rparr>"

text \<open>\<^verbatim>\<open>df.iloc[start:stop]\<close>, with Python's reading of negative and too large bounds.\<close>

definition iloc :: "int \<Rightarrow> int \<Rightarrow> 'a list \<Rightarrow> 'a list" where
  "iloc start stop xs =
     (let n = int (length xs);
          s = (if start < 0 then max 0 (start + n) else min start n);
          e = (if stop < 0 then max 0 (stop + n) else min stop n)
      in take (nat (e - s)) (drop (nat s) xs))"

text \<open>
  The test \<^verbatim>\<open>result[col].dtype == 'datetime64[ns]'\<close>: a column is taken to have that
  dtype when, in the working frame, it holds an instant and, besides instants, missing
  values only. Its instants are then written as \<^verbatim>\<open>%Y-%m-%d\<close> texts.
\<close>

fun is_time :: "val \<Rightarrow> bool" where
  "is_time (VTime t) = True"
| "is_time v = False"

definition datetime_col :: "dataframe \<Rightarrow> string \<Rightarrow> bool" where
  "datetime_col df c =
     (list_ex is_time (series df c) \<and> list_all (\<lambda>v. is_time v \<or> v = VNA) (series df c))"

fun strftime_cell :: "pyenv \<Rightarrow> val \<Rightarrow> val" where
  "strftime_cell env (VTime t) = VStr (strftime env t)"
| "strftime_cell env v = v"

definition convert_dates :: "pyenv \<Rightarrow> dataframe \<Rightarrow> dataframe \<Rightarrow> dataframe" where
  "convert_dates env whole df =
     df\<lparr> rows := map (\<lambda>r c. if c \<in> set (columns df) \<and> datetime_col whole c
                              then strftime_cell env (r c) else r c) (rows df) \<rparr>"

text \<open>
  The frame behind a table name in \<^verbatim>\<open>get_raw_data\<close>: \<^verbatim>\<open>'sales'\<close>, \<^verbatim>\<open>'claims'\<close>, and
  nothing for any other name.
\<close>

definition named_frame :: "processor \<Rightarrow> string \<Rightarrow> dataframe option" where
  "named_frame st table =
     (if table = ''sales'' then sales_df st
      else if table = ''claims'' then claims_df st else None)"

text \<open>
  \<^verbatim>\<open>if sort_by and sort_by in df.columns: df = df.sort_values(sort_by, ascending=(sort_dir == 'asc'))\<close>.
  \<open>sort_by\<close> is None or a column name.
\<close>

definition sort_frame :: "pyenv \<Rightarrow> string option \<Rightarrow> string \<Rightarrow> dataframe \<Rightarrow> dataframe" where
  "sort_frame env sort_by sort_dir df =
     (case sort_by of
        None \<Rightarrow> df
      | Some c \<Rightarrow>
          if c \<noteq> [] \<and> c \<in> set (columns df)
          then df\<lparr> rows := sort_values env c (sort_dir = ''asc'') (rows df) \<rparr>
          else df)"

text \<open>
  \<^verbatim>\<open>get_raw_data\<close>. The division by a zero \<open>limit\<close> is Python's
  \<^verbatim>\<open>ZeroDivisionError\<close>; \<^verbatim>\<open>//\<close> is the floor division, as \<open>div\<close> on the integers is.
\<close>

definition get_raw_data ::
  "pyenv \<Rightarrow> string \<Rightarrow> int \<Rightarrow> int \<Rightarrow> filters option \<Rightarrow> string option \<Rightarrow> string \<Rightarrow> processor
     \<Rightarrow> exn + raw_page" where
  "get_raw_data env table page limit filters sort_by sort_dir st =
     (case named_frame st table of
        None \<Rightarrow> Inr empty_page
      | Some whole \<Rightarrow>
          bind_exn (apply_filters env whole (or_empty filters)) (\<lambda>filtered.
            let df = sort_frame env sort_by sort_dir filtered;
                total = int (length (rows df))
            in if limit = 0 then Inl ZeroDivisionError
               else
                 let pages = max 1 ((total + limit - 1) div limit);
                     page' = max 1 (min page pages);
                     start = (page' - 1) * limit;
                     stop = start + limit;
                     result = convert_dates env whole (df\<lparr> rows := iloc start stop (rows df) \<rparr>)
                 in Inr \<lparr> out_rows = to_dict_records result,
                          out_columns = Some (filter (\<lambda>c. c \<noteq> ''_row_id'') (columns result)),
                          out_total = total, out_page = page', out_pages = pages,
                          out_limit = Some limit \<rparr>))"

subsection \<open>Breakdowns, correlations and insights\<close>

text \<open>
  The breakdown operations (\<^verbatim>\<open>get_sales_monthly\<close>, \<^verbatim>\<open>get_sales_dealers\<close>,
  \<^verbatim>\<open>get_sales_products\<close>, \<^verbatim>\<open>get_sales_vehicles\<close>, \<^verbatim>\<open>get_claims_status\<close>,
  \<^verbatim>\<open>get_claims_parts\<close>, \<^verbatim>\<open>get_claims_trends\<close>, \<^verbatim>\<open>get_claims_recent\<close>),
  \<^verbatim>\<open>get_correlations\<close> and \<^verbatim>\<open>get_insights\<close> all open the same way: the cache is
  asked under the method's key, then the frame the method reads is tested against None,
  and only then the grouping pipeline runs. The opening is modelled as written; the
  pipeline behind it is the parameter \<open>body\<close>, which gets the frame, the
  specification, the key and the state and gives the result and the state it leaves.
  \<open>nothing\<close> is what the method returns when that frame is None.
\<close>

type_synonym body =
  "dataframe \<Rightarrow> filters \<Rightarrow> cache_key \<Rightarrow> processor \<Rightarrow> exn + (result \<times> processor)"

definition cached_read ::
  "string \<Rightarrow> (processor \<Rightarrow> dataframe option) \<Rightarrow> result \<Rightarrow> body \<Rightarrow> filters option \<Rightarrow> processor
     \<Rightarrow> exn + (result \<times> processor)" where
  "cached_read method_name frame nothing body filters st =
     (let cache_key = get_cache_key method_name filters in
      case query_cache st cache_key of
        Some res \<Rightarrow> Inr (res, st)
      | None \<Rightarrow>
          (case frame st of
             None \<Rightarrow> Inr (nothing, st)
           | Some df \<Rightarrow> body df (or_empty filters) cache_key st))"












section \<open>A concrete environment and a fixture\<close>

text \<open>
  An instance of the environment, for the concrete sessions below. Its parsers read
  plain decimal numbers and dates written \<^verbatim>\<open>YYYY-MM-DD\<close> and refuse every other text;
  the instant of a date is the number \<open>yyyymmdd\<close>, which respects the order of dates.
  Rounding is to the nearest multiple of \<open>10\<^sup>-\<^sup>n\<close>, ties to even. Sorting is a stable
  insertion sort with missing values last.
\<close>

definition digit :: "char \<Rightarrow> nat option" where
  "digit c = (if CHR ''0'' \<le> c \<and> c \<le> CHR ''9'' then Some (of_char c - 48) else None)"

fun digits :: "string \<Rightarrow> nat \<Rightarrow> nat option" where
  "digits [] acc = Some acc"
| "digits (c # cs) acc = (case digit c of None \<Rightarrow> None | Some d \<Rightarrow> digits cs (10 * acc + d))"

definition number :: "string \<Rightarrow> nat option" where
  "number s = (if s = [] then None else digits s 0)"

definition iso_date :: "string \<Rightarrow> int option" where
  "iso_date s =
     (if length s = 10 \<and> s ! 4 = CHR ''-'' \<and> s ! 7 = CHR ''-''
      then (case (number (take 4 s), number (take 2 (drop 5 s)), number (drop 8 s)) of
              (Some y, Some m, Some d) \<Rightarrow>
                if 1 \<le> m \<and> m \<le> 12 \<and> 1 \<le> d \<and> d \<le> 31
                then Some (int (y * 10000 + m * 100 + d)) else None
            | _ \<Rightarrow> None)
      else None)"

definition two_digits :: "nat \<Rightarrow> string" where
  "two_digits n = [char_of (48 + (n div 10) mod 10), char_of (48 + n mod 10)]"

definition date_text :: "int \<Rightarrow> string" where
  "date_text t =
     (let n = nat t
      in two_digits (n div 1000000) @ two_digits ((n div 10000) mod 100) @ ''-'' @
         two_digits ((n div 100) mod 100) @ ''-'' @ two_digits (n mod 100))"

definition ascii_lower :: "string \<Rightarrow> string" where
  "ascii_lower s =
     map (\<lambda>c. if CHR ''A'' \<le> c \<and> c \<le> CHR ''Z'' then char_of (of_char c + (32::nat)) else c) s"

definition round_half_even :: "real \<Rightarrow> nat \<Rightarrow> real" where
  "round_half_even x n =
     (let y = x * 10 ^ n; f = \<lfloor>y\<rfloor>; d = y - of_int f;
          k = (if d < 1 / 2 then f else if 1 / 2 < d then f + 1
               else if even f then f else f + 1)
      in of_int k / 10 ^ n)"

definition sorts_before :: "val \<Rightarrow> val \<Rightarrow> bool" where
  "sorts_before a b =
     (case (a, b) of
        (VStr s, VStr t) \<Rightarrow> s \<le> t
      | (VTime s, VTime t) \<Rightarrow> s \<le> t
      | (_, VNA) \<Rightarrow> True
      | _ \<Rightarrow> (case (num_of a, num_of b) of (Some x, Some y) \<Rightarrow> x \<le> y | _ \<Rightarrow> False))"

fun insert_row :: "(row \<Rightarrow> row \<Rightarrow> bool) \<Rightarrow> row \<Rightarrow> row list \<Rightarrow> row list" where
  "insert_row le r [] = [r]"
| "insert_row le r (q # qs) = (if le r q then r # q # qs else q # insert_row le r qs)"

definition insertion_sort :: "string \<Rightarrow> bool \<Rightarrow> row list \<Rightarrow> row list" where
  "insertion_sort c ascending rs =
     foldr (insert_row (\<lambda>r q. if ascending then sorts_before (r c) (q c)
                                else q c = VNA \<or> (r c \<noteq> VNA \<and> sorts_before (q c) (r c)))) rs []"

definition demo_env :: pyenv where
  "demo_env =
     \<lparr> float_of_str = (\<lambda>s. map_option real (number s)),
       int_of_str = (\<lambda>s. map_option int (number s)),
       parse_datetime = (\<lambda>v. case v of
                            VStr s \<Rightarrow> (case iso_date s of Some t \<Rightarrow> At t | None \<Rightarrow> Unparseable)
                          | _ \<Rightarrow> Unparseable),
       str_of = (\<lambda>v. case v of VStr s \<Rightarrow> s | VTime t \<Rightarrow> date_text t | _ \<Rightarrow> []),
       lower = ascii_lower,
       round_to = round_half_even,
       strftime = date_text,
       isoformat = date_text,
       sort_values = insertion_sort \<rparr>"

text \<open>A row given by its cells; every other label is missing.\<close>

definition mk_row :: "(string \<times> val) list \<Rightarrow> row" where
  "mk_row kvs = (\<lambda>c. case map_of kvs c of Some v \<Rightarrow> v | None \<Rightarrow> VNA)"

text \<open>
  The fixture of the specification: three policies, of which A has two claims summing
  to 150 and B and C have none.
\<close>

definition demo_sales :: dataframe where
  "demo_sales =
     \<lparr> columns = [''Policy No'', ''Dealer'', ''Make'', ''Gross Premium''],
       rows = [mk_row [(''Policy No'', VStr ''A''), (''Dealer'', VStr ''North''),
                       (''Make'', VStr ''Audi''), (''Gross Premium'', VNum 1000)],
               mk_row [(''Policy No'', VStr ''B''), (''Dealer'', VStr ''North''),
                       (''Make'', VStr ''Audi''), (''Gross Premium'', VNum 2000)],
               mk_row [(''Policy No'', VStr ''C''), (''Dealer'', VStr ''South''),
                       (''Make'', VStr ''Fiat''), (''Gross Premium'', VNum 3000)]] \<rparr>"

definition demo_claims :: dataframe where
  "demo_claims =
     \<lparr> columns = [''Policy No'', ''Claim Status'', ''Total Auth Amount''],
       rows = [mk_row [(''Policy No'', VStr ''A''), (''Claim Status'', VStr ''Approved''),
                       (''Total Auth Amount'', VNum 100)],
               mk_row [(''Policy No'', VStr ''A''), (''Claim Status'', VStr ''Rejected''),
                       (''Total Auth Amount'', VNum 50)]] \<rparr>"

text \<open>The two frames of the fixture with their row identifiers.\<close>

definition demo_sales_ids :: dataframe where
  "demo_sales_ids = \<lparr> columns = ''_row_id'' # columns demo_sales,
     rows = map (\<lambda>(i, r). r(''_row_id'' := VInt (int i))) (enumerate 0 (rows demo_sales)) \<rparr>"

definition demo_claims_ids :: dataframe where
  "demo_claims_ids = \<lparr> columns = ''_row_id'' # columns demo_claims,
     rows = map (\<lambda>(i, r). r(''_row_id'' := VInt (int i))) (enumerate 0 (rows demo_claims)) \<rparr>"

text \<open>The session after loading the fixture.\<close>

definition demo_state :: processor where
  "demo_state = (case load_excel demo_sales demo_claims of Inr st \<Rightarrow> st | Inl e \<Rightarrow> init)"




text \<open>A specification without one of its dimensions.\<close>

definition drop_key :: "string \<Rightarrow> filters \<Rightarrow> filters" where
  "drop_key k filters = filter (\<lambda>p. fst p \<noteq> k) filters"




section \<open>Sessions\<close>

text \<open>
  The states of a session: a successful load, then any sequence of edits, resets and
  reads. A cached read other than \<^verbatim>\<open>get_summary\<close> leaves the state as it was but for
  one more entry of the cache, under a key of its own method name.
\<close>

inductive reachable :: "pyenv \<Rightarrow> processor \<Rightarrow> bool" for env :: pyenv where
  loaded: "load_excel sales_sheet claims_sheet = Inr st \<Longrightarrow> reachable env st"
| edited: "reachable env st \<Longrightarrow>
     update_cell env now table row_id column value st = Inr (res, st') \<Longrightarrow> reachable env st'"
| reset: "reachable env st \<Longrightarrow> reset_data st = Inr (res, st') \<Longrightarrow> reachable env st'"
| summary: "reachable env st \<Longrightarrow> get_summary env filters st = Inr (r, st') \<Longrightarrow> reachable env st'"
| cached: "reachable env st \<Longrightarrow> fst k \<noteq> ''get_summary'' \<Longrightarrow>
     reachable env (st\<lparr> query_cache := (query_cache st)(k \<mapsto> v) \<rparr>)"

text \<open>
  What every state of a session satisfies: the four frames are there, each carries the
  row identifiers \<open>0, 1, ...\<close> in order, the working frames have the labels of their
  originals, the originals merge without an exception, and the merged view is the one
  built from the current working frames.
\<close>

definition row_ids :: "dataframe \<Rightarrow> bool" where
  "row_ids df =
     (''_row_id'' \<in> set (columns df) \<and>
      series df ''_row_id'' = map (\<lambda>i. VInt (int i)) [0..<length (rows df)])"

definition loaded_inv :: "processor \<Rightarrow> bool" where
  "loaded_inv st =
     (\<exists>os oc s c m mw.
        original_sales_df st = Some os \<and> original_claims_df st = Some oc \<and>
        sales_df st = Some s \<and> claims_df st = Some c \<and>
        row_ids os \<and> row_ids oc \<and> row_ids s \<and> row_ids c \<and>
        columns s = columns os \<and> columns c = columns oc \<and>
        merged_view os oc = Inr m \<and>
        merged_view s c = Inr mw \<and> merged_df st = Some mw)"

text \<open>The original snapshot behind a table name, chosen as the working frame is.\<close>

definition original_of :: "processor \<Rightarrow> string \<Rightarrow> dataframe option" where
  "original_of st table = (if table = ''sales'' then original_sales_df st else original_claims_df st)"

text \<open>
  The invariant of the cache, for the summaries: an entry under a \<^verbatim>\<open>get_summary\<close> key
  is the summary of the current working frames and merged view for that specification.
\<close>

definition cache_fresh :: "pyenv \<Rightarrow> processor \<Rightarrow> bool" where
  "cache_fresh env st =
     (\<forall>filters res. query_cache st (get_cache_key ''get_summary'' filters) = Some res \<longrightarrow>
        (\<exists>s c. sales_df st = Some s \<and> claims_df st = Some c \<and>
               compute_summary env s c (merged_df st) (or_empty filters) = Inr res))"

text \<open>\<^verbatim>\<open>summary[key]\<close>: one field of a mapping result.\<close>

definition result_get :: "result \<Rightarrow> string \<Rightarrow> val option" where
  "result_get r k = (case r of Mapping m \<Rightarrow> map_of m k | Records rs \<Rightarrow> None)"

section \<open>Properties\<close>

subsection \<open>Row identifiers\<close>

lemma py_eq_VInt [simp]: "py_eq (VInt a) (VInt b) = (a = b)"
  by (simp add: py_eq_def)

lemma row_ids_nth:
  assumes "row_ids df" and "i < length (rows df)"
  shows "(rows df ! i) ''_row_id'' = VInt (int i)"
proof -
  from assms(1) have "series df ''_row_id'' ! i = map (\<lambda>i. VInt (int i)) [0..<length (rows df)] ! i"
    by (simp add: row_ids_def)
  with assms(2) show ?thesis by (simp add: series_def)
qed

lemma has_row_id_nth:
  assumes "row_ids df" and "i < length (rows df)"
  shows "has_row_id row_id (rows df ! i) = (int i = row_id)"
  using row_ids_nth [OF assms] by (simp add: has_row_id_def)

lemma find_row_id:
  assumes "row_ids df" and "find (has_row_id row_id) (rows df) = Some r"
  shows "0 \<le> row_id \<and> nat row_id < length (rows df) \<and> r = rows df ! nat row_id"
proof -
  from assms(2) obtain i where i: "i < length (rows df)" "has_row_id row_id (rows df ! i)" "r = rows df ! i"
    by (auto simp: find_Some_iff)
  with has_row_id_nth [OF assms(1) i(1)] have "int i = row_id" by simp
  with i show ?thesis by auto
qed

lemma loc_assign_update:
  assumes "row_ids df" and "0 \<le> row_id" and "nat row_id < length (rows df)"
  shows "rows (loc_assign row_id column v df) =
         (rows df)[nat row_id := (rows df ! nat row_id)(column := v)]"
proof (rule nth_equalityI)
  show "length (rows (loc_assign row_id column v df)) =
        length ((rows df)[nat row_id := (rows df ! nat row_id)(column := v)])"
    by (simp add: loc_assign_def)
next
  fix i assume "i < length (rows (loc_assign row_id column v df))"
  then have i: "i < length (rows df)" by (simp add: loc_assign_def)
  show "rows (loc_assign row_id column v df) ! i =
        (rows df)[nat row_id := (rows df ! nat row_id)(column := v)] ! i"
  proof (cases "i = nat row_id")
    case True
    with i assms show ?thesis
      by (simp add: loc_assign_def has_row_id_nth)
  next
    case False
    with assms(2) have "int i \<noteq> row_id" by auto
    with i False assms(1) show ?thesis
      by (simp add: loc_assign_def has_row_id_nth)
  qed
qed

lemma columns_loc_assign [simp]: "columns (loc_assign row_id column v df) = columns df"
  by (simp add: loc_assign_def)

lemma length_loc_assign [simp]: "length (rows (loc_assign row_id column v df)) = length (rows df)"
  by (simp add: loc_assign_def)

lemma row_ids_loc_assign:
  assumes "row_ids df" and "column \<noteq> ''_row_id''"
  shows "row_ids (loc_assign row_id column v df)"
proof -
  have "series (loc_assign row_id column v df) ''_row_id'' = series df ''_row_id''"
    using assms(2) by (simp add: series_def loc_assign_def)
  with assms(1) show ?thesis by (simp add: row_ids_def)
qed

lemma map_enumerate_from: "map (\<lambda>p. g (fst p)) (enumerate n xs) = map g [n..<n + length xs]"
proof -
  have "map (g \<circ> fst) (zip [n..<n + length xs] xs) = map g (map fst (zip [n..<n + length xs] xs))"
    by (simp only: map_map)
  also have "\<dots> = map g [n..<n + length xs]"
    by (subst map_fst_zip) simp_all
  finally show ?thesis
    by (simp only: enumerate_eq_zip comp_def)
qed

lemma map_enumerate_fst: "map (\<lambda>p. g (fst p)) (enumerate 0 xs) = map g [0..<length xs]"
  using map_enumerate_from [of g 0 xs] by simp

lemma row_ids_insert:
  assumes "insert_row_id df = Inr df'"
  shows "row_ids df'"
proof -
  from assms have df': "df' = \<lparr> columns = ''_row_id'' # columns df,
      rows = map (\<lambda>(i, r). r(''_row_id'' := VInt (int i))) (enumerate 0 (rows df)) \<rparr>"
    by (simp add: insert_row_id_def split: if_splits)
  show ?thesis
    using map_enumerate_fst [of "\<lambda>i. VInt (int i)" "rows df"]
    by (simp add: row_ids_def df' series_def comp_def case_prod_unfold)
qed

subsection \<open>What an edit does to the state\<close>

lemma build_merged_keeps:
  assumes "build_merged st = Inr st'"
  shows "sales_df st' = sales_df st \<and> claims_df st' = claims_df st \<and>
         original_sales_df st' = original_sales_df st \<and>
         original_claims_df st' = original_claims_df st \<and>
         change_log st' = change_log st \<and> query_cache st' = query_cache st \<and>
         metrics_dirty st' = metrics_dirty st"
  using assms by (auto simp: build_merged_def split: option.splits sum.splits)

lemma build_merged_view:
  assumes "build_merged st = Inr st'" and "sales_df st = Some s" and "claims_df st = Some c"
  shows "\<exists>m. merged_view s c = Inr m \<and> merged_df st' = Some m"
  using assms by (auto simp: build_merged_def split: sum.splits)

lemma apply_change_result:
  assumes "apply_change env now table row_id column old v df st = Inr (res, st')"
  shows "res = Updated (serialize env old) (serialize env v) \<and>
         frame_of st' table = Some (loc_assign row_id column v df) \<and>
         (if table = ''sales'' then claims_df st' = claims_df st else sales_df st' = sales_df st) \<and>
         original_sales_df st' = original_sales_df st \<and>
         original_claims_df st' = original_claims_df st \<and>
         change_log st' = change_log st @
           [\<lparr> timestamp = now, entry_table = table, entry_row_id = row_id,
              entry_column = column, old_value = serialize env old,
              new_value = serialize env v \<rparr>] \<and>
         query_cache st' = Map.empty \<and>
         (\<forall>s c. sales_df st' = Some s \<and> claims_df st' = Some c \<longrightarrow>
                (\<exists>m. merged_view s c = Inr m \<and> merged_df st' = Some m))"
proof -
  define st3 where "st3 = (clear_cache (if table = ''sales'' then st\<lparr> sales_df := Some (loc_assign row_id column v df) \<rparr>
                            else st\<lparr> claims_df := Some (loc_assign row_id column v df) \<rparr>))
              \<lparr> change_log := change_log st @
                 [\<lparr> timestamp = now, entry_table = table, entry_row_id = row_id,
                    entry_column = column, old_value = serialize env old,
                    new_value = serialize env v \<rparr>] \<rparr>"
  have eq: "apply_change env now table row_id column old v df st =
        (case build_merged st3 of Inl e \<Rightarrow> Inl e
         | Inr st4 \<Rightarrow> Inr (Updated (serialize env old) (serialize env v), st4\<lparr> metrics_dirty := True \<rparr>))"
    by (simp add: apply_change_def Let_def st3_def clear_cache_def)
  with assms obtain st4 where st4: "build_merged st3 = Inr st4"
    and res: "res = Updated (serialize env old) (serialize env v)" "st' = st4\<lparr> metrics_dirty := True \<rparr>"
    by (cases "build_merged st3") auto
  have mv: "\<forall>s c. sales_df st' = Some s \<and> claims_df st' = Some c \<longrightarrow>
                (\<exists>m. merged_view s c = Inr m \<and> merged_df st' = Some m)"
  proof (intro allI impI)
    fix s c assume "sales_df st' = Some s \<and> claims_df st' = Some c"
    with build_merged_keeps [OF st4] res have "sales_df st3 = Some s" "claims_df st3 = Some c"
      by simp_all
    from build_merged_view [OF st4 this] res
    show "\<exists>m. merged_view s c = Inr m \<and> merged_df st' = Some m" by simp
  qed
  from build_merged_keeps [OF st4] res mv show ?thesis
    by (simp add: frame_of_def clear_cache_def st3_def)
qed

lemma update_cell_rejected:
  assumes "update_cell env now table row_id column value st = Inr (UpdateFailed f, st')"
  shows "st' = st"
proof (cases "frame_of st table")
  case None
  with assms show ?thesis by (simp add: update_cell_def)
next
  case (Some df)
  show ?thesis
  proof (cases "column \<notin> set (columns df) \<or> column = ''_row_id''")
    case True
    with assms Some show ?thesis by (auto simp: update_cell_def split: if_splits)
  next
    case False
    with assms Some have rid: "''_row_id'' \<in> set (columns df)"
      by (auto simp: update_cell_def split: if_splits)
    show ?thesis
    proof (cases "find (has_row_id row_id) (rows df)")
      case None
      with assms Some False rid show ?thesis by (simp add: update_cell_def)
    next
      case r0: (Some r0)
      show ?thesis
      proof (cases "validate_value env table column value")
        case (Inl err)
        with assms Some False rid r0 show ?thesis by (simp add: update_cell_def)
      next
        case (Inr v)
        with assms Some False rid r0
        have "apply_change env now table row_id column (r0 column) v df st = Inr (UpdateFailed f, st')"
          by (simp add: update_cell_def)
        from apply_change_result [OF this] show ?thesis by simp
      qed
    qed
  qed
qed

lemma update_cell_accepted:
  assumes "update_cell env now table row_id column value st = Inr (Updated ov nv, st')"
  shows "\<exists>df r0 v.
           frame_of st table = Some df \<and> column \<in> set (columns df) \<and> column \<noteq> ''_row_id'' \<and>
           ''_row_id'' \<in> set (columns df) \<and>
           find (has_row_id row_id) (rows df) = Some r0 \<and>
           validate_value env table column value = Inr v \<and>
           apply_change env now table row_id column (r0 column) v df st = Inr (Updated ov nv, st')"
proof -
  from assms obtain df where df: "frame_of st table = Some df"
    by (auto simp: update_cell_def split: option.splits)
  from assms df have col: "column \<in> set (columns df)" "column \<noteq> ''_row_id''" "''_row_id'' \<in> set (columns df)"
    by (auto simp: update_cell_def split: if_splits)
  from assms df col obtain r0 where r0: "find (has_row_id row_id) (rows df) = Some r0"
    by (auto simp: update_cell_def split: option.splits)
  from assms df col r0 obtain v where v: "validate_value env table column value = Inr v"
    by (auto simp: update_cell_def split: sum.splits)
  from assms df col r0 v show ?thesis
    by (simp add: update_cell_def)
qed

subsection \<open>The invariant of a session\<close>

lemma loaded_inv_cache [simp]: "loaded_inv (st\<lparr> query_cache := q \<rparr>) = loaded_inv st"
  by (simp add: loaded_inv_def)

lemma loaded_inv_load:
  assumes "load_excel sales_sheet claims_sheet = Inr st"
  shows "loaded_inv st"
proof -
  from assms obtain os where os: "insert_row_id sales_sheet = Inr os"
    by (cases "insert_row_id sales_sheet") (auto simp: load_excel_def)
  from assms os obtain oc where oc: "insert_row_id claims_sheet = Inr oc"
    by (cases "insert_row_id claims_sheet") (auto simp: load_excel_def)
  from assms os oc obtain m where m: "merged_view os oc = Inr m"
    by (cases "merged_view os oc") (auto simp: load_excel_def build_merged_def)
  from assms os oc m have st: "st = (clear_cache init)\<lparr> original_sales_df := Some os,
      original_claims_df := Some oc, sales_df := Some os, claims_df := Some oc,
      merged_df := Some m, metrics_dirty := True, change_log := [] \<rparr>"
    by (auto simp: load_excel_def build_merged_def)
  from row_ids_insert [OF os] row_ids_insert [OF oc] m show ?thesis
    by (simp add: loaded_inv_def st)
qed

lemma loaded_inv_update:
  assumes "loaded_inv st" and "update_cell env now table row_id column value st = Inr (res, st')"
  shows "loaded_inv st'"
proof (cases res)
  case (UpdateFailed f)
  with assms(2) update_cell_rejected have "st' = st" by blast
  with assms(1) show ?thesis by simp
next
  case (Updated ov nv)
  with assms(2) update_cell_accepted obtain df r0 v where
    df: "frame_of st table = Some df" and col: "column \<noteq> ''_row_id''" and
    ch: "apply_change env now table row_id column (r0 column) v df st = Inr (Updated ov nv, st')"
    by blast
  note r = apply_change_result [OF ch]
  from assms(1) obtain os oc s c m where inv:
    "original_sales_df st = Some os" "original_claims_df st = Some oc"
    "sales_df st = Some s" "claims_df st = Some c"
    "row_ids os" "row_ids oc" "row_ids s" "row_ids c"
    "columns s = columns os" "columns c = columns oc" "merged_view os oc = Inr m"
    by (auto simp: loaded_inv_def)
  show ?thesis
  proof (cases "table = ''sales''")
    case True
    with df inv have "df = s" by (simp add: frame_of_def)
    with r True inv col row_ids_loc_assign show ?thesis
      by (auto simp: loaded_inv_def frame_of_def)
  next
    case False
    with df inv have "df = c" by (simp add: frame_of_def)
    with r False inv col row_ids_loc_assign show ?thesis
      by (auto simp: loaded_inv_def frame_of_def)
  qed
qed

lemma reset_data_result:
  assumes "original_sales_df st = Some os" and "original_claims_df st = Some oc"
    and "merged_view os oc = Inr m"
  shows "reset_data st =
         Inr (Reverted (length (change_log st)),
              st\<lparr> sales_df := Some os, claims_df := Some oc, merged_df := Some m,
                  query_cache := Map.empty, metrics_dirty := True, change_log := [] \<rparr>)"
  using assms by (simp add: reset_data_def build_merged_def clear_cache_def)

lemma loaded_inv_reset:
  assumes "loaded_inv st" and "reset_data st = Inr (res, st')"
  shows "loaded_inv st'"
proof -
  from assms(1) obtain os oc m where o: "original_sales_df st = Some os"
    "original_claims_df st = Some oc" "merged_view os oc = Inr m" "row_ids os" "row_ids oc"
    by (auto simp: loaded_inv_def)
  from reset_data_result [OF o(1-3)] assms(2) o show ?thesis
    by (auto simp: loaded_inv_def)
qed

lemma get_summary_state:
  assumes "get_summary env filters st = Inr (r, st')"
  shows "st' = st \<or> st' = st\<lparr> query_cache := (query_cache st)(get_cache_key ''get_summary'' filters \<mapsto> r) \<rparr>"
  using assms
  by (auto simp: get_summary_def Let_def bind_exn_def split: option.splits sum.splits)

lemma loaded_inv_summary:
  assumes "loaded_inv st" and "get_summary env filters st = Inr (r, st')"
  shows "loaded_inv st'"
  using get_summary_state [OF assms(2)] assms(1) by auto

lemma reachable_inv: "reachable env st \<Longrightarrow> loaded_inv st"
proof (induction rule: reachable.induct)
  case (loaded sales_sheet claims_sheet st)
  then show ?case by (rule loaded_inv_load)
next
  case (edited st now table row_id column "value" res st')
  then show ?case using loaded_inv_update by blast
next
  case (reset st res st')
  then show ?case using loaded_inv_reset by blast
next
  case (summary st filters r st')
  then show ?case using loaded_inv_summary by blast
next
  case (cached st k v)
  then show ?case by simp
qed

subsection \<open>The fixture session\<close>

lemmas eval_defs = merged_view_def policy_candidates_def claims_agg_def group_keys_def
  series_def mk_row_def py_eq_def agg_row_def group_rows_def sum_or_size_def merge_left_def
  agg_columns_def suffixed_def relabel_def set_column_def fillna0_def gt0_def Let_def

lemma demo_ids: "insert_row_id demo_sales = Inr demo_sales_ids" "insert_row_id demo_claims = Inr demo_claims_ids"
  by (simp_all add: insert_row_id_def demo_sales_def demo_claims_def demo_sales_ids_def demo_claims_ids_def)

lemma demo_merged: "\<exists>m. merged_view demo_sales_ids demo_claims_ids = Inr m"
  by (simp add: demo_sales_ids_def demo_claims_ids_def demo_sales_def demo_claims_def eval_defs)

lemma demo_loaded: "load_excel demo_sales demo_claims = Inr demo_state"
proof -
  from demo_merged obtain m where "merged_view demo_sales_ids demo_claims_ids = Inr m" ..
  then have "\<exists>st. load_excel demo_sales demo_claims = Inr st"
    by (simp add: load_excel_def demo_ids build_merged_def clear_cache_def init_def)
  then show ?thesis by (auto simp: demo_state_def)
qed

lemma demo_frames:
  "sales_df demo_state = Some demo_sales_ids" "claims_df demo_state = Some demo_claims_ids"
  "original_sales_df demo_state = Some demo_sales_ids" "original_claims_df demo_state = Some demo_claims_ids"
  "change_log demo_state = []"
proof -
  from demo_merged obtain m where "merged_view demo_sales_ids demo_claims_ids = Inr m" ..
  then have st: "demo_state = (clear_cache init)\<lparr> original_sales_df := Some demo_sales_ids,
      original_claims_df := Some demo_claims_ids, sales_df := Some demo_sales_ids, claims_df := Some demo_claims_ids,
      merged_df := Some m, metrics_dirty := True, change_log := [] \<rparr>"
    by (simp add: demo_state_def load_excel_def demo_ids build_merged_def)
  show "sales_df demo_state = Some demo_sales_ids" "claims_df demo_state = Some demo_claims_ids"
  "original_sales_df demo_state = Some demo_sales_ids" "original_claims_df demo_state = Some demo_claims_ids"
  "change_log demo_state = []"
    by (simp_all add: st)
qed

subsection \<open>Helpers on edits\<close>

lemma demo_reachable: "reachable env demo_state"
  using demo_loaded by (rule reachable.loaded)

lemma loc_assign_frame:
  assumes "row_ids df" and "0 \<le> row_id" and "nat row_id < length (rows df)"
  shows "loc_assign row_id column v df =
         df\<lparr> rows := (rows df)[nat row_id := (rows df ! nat row_id)(column := v)] \<rparr>"
proof -
  have "loc_assign row_id column v df = df\<lparr> rows := rows (loc_assign row_id column v df) \<rparr>"
    by (simp add: loc_assign_def)
  with loc_assign_update [OF assms] show ?thesis by simp
qed

lemma frame_row_ids:
  assumes "loaded_inv st" and "frame_of st table = Some df"
  shows "row_ids df"
  using assms by (auto simp: loaded_inv_def frame_of_def split: if_splits)

lemma update_cell_total:
  assumes "sales_df st = Some s" and "claims_df st = Some c"
    and "frame_of st table = Some df"
    and "column \<in> set (columns df)" and "column \<noteq> ''_row_id''" and "''_row_id'' \<in> set (columns df)"
    and "find (has_row_id row_id) (rows df) = Some r0"
    and "validate_value env table column value = Inr v"
    and "merged_view (if table = ''sales'' then loc_assign row_id column v s else s)
                     (if table = ''sales'' then c else loc_assign row_id column v c) = Inr m"
  shows "\<exists>st'. update_cell env now table row_id column value st =
           Inr (Updated (serialize env (r0 column)) (serialize env v), st')"
proof (cases "table = ''sales''")
  case True
  with assms(1-3) have "df = s" by (simp add: frame_of_def)
  with True assms show ?thesis
    by (simp add: update_cell_def apply_change_def Let_def build_merged_def clear_cache_def)
next
  case False
  with assms(1-3) have "df = c" by (simp add: frame_of_def)
  with False assms show ?thesis
    by (simp add: update_cell_def apply_change_def Let_def build_merged_def clear_cache_def)
qed

lemma demo_find_1: "find (has_row_id 1) (rows demo_sales_ids) = Some (rows demo_sales_ids ! 1)"
  by (simp add: demo_sales_ids_def demo_sales_def has_row_id_def)

lemma demo_edit_merges:
  "\<exists>m. merged_view (loc_assign 1 ''Dealer'' (VStr ''West'') demo_sales_ids) demo_claims_ids = Inr m"
  by (simp add: loc_assign_def has_row_id_def demo_sales_ids_def demo_claims_ids_def
        demo_sales_def demo_claims_def eval_defs)

lemma demo_edit:
  "\<exists>st'. update_cell demo_env now ''sales'' 1 ''Dealer'' (VStr ''West'') demo_state =
         Inr (Updated (VStr ''North'') (VStr ''West''), st')"
proof -
  from demo_edit_merges obtain m where
    m: "merged_view (loc_assign 1 ''Dealer'' (VStr ''West'') demo_sales_ids) demo_claims_ids = Inr m" ..
  have v: "validate_value demo_env ''sales'' ''Dealer'' (VStr ''West'') = Inr (VStr ''West'')"
    by (simp add: validate_value_def numeric_cols_def)
  have old: "(rows demo_sales_ids ! 1) ''Dealer'' = VStr ''North''"
    by (simp add: demo_sales_ids_def demo_sales_def mk_row_def)
  have "\<exists>st'. update_cell demo_env now ''sales'' 1 ''Dealer'' (VStr ''West'') demo_state =
         Inr (Updated (serialize demo_env ((rows demo_sales_ids ! 1) ''Dealer''))
                      (serialize demo_env (VStr ''West'')), st')"
    by (rule update_cell_total [OF demo_frames(1) demo_frames(2) _ _ _ _ demo_find_1 v])
       (simp_all add: frame_of_def demo_frames m, simp_all add: demo_sales_ids_def demo_sales_def)
  then show ?thesis using old by simp
qed

subsection \<open>Edits touch one cell\<close>

text \<open>
  Claim C5. In a state reached by a load and any sequence of edits, resets and reads, a
  successful \<^verbatim>\<open>update_cell(table, row_id, column, value)\<close> writes one cell of one row
  of the addressed working frame: exactly one row carries the identifier (the one at
  position \<open>row_id\<close>), the frame afterwards is the frame before with that row's cell of
  \<open>column\<close> set to the validated value, and every other cell of that frame, the whole
  other working frame and both original snapshots are as they were. The identifiers are
  unique in every such state, because \<^verbatim>\<open>_row_id\<close> cannot be edited.
\<close>

theorem update_cell_one_cell:
  assumes "reachable env st"
    and "update_cell env now table row_id column value st = Inr (Updated ov nv, st')"
  shows "\<exists>df v. frame_of st table = Some df \<and>
           validate_value env table column value = Inr v \<and>
           column \<in> set (columns df) \<and> column \<noteq> ''_row_id'' \<and>
           0 \<le> row_id \<and> nat row_id < length (rows df) \<and>
           (\<forall>i < length (rows df). has_row_id row_id (rows df ! i) = (i = nat row_id)) \<and>
           frame_of st' table =
             Some (df\<lparr> rows := (rows df)[nat row_id := (rows df ! nat row_id)(column := v)] \<rparr>) \<and>
           (if table = ''sales'' then claims_df st' = claims_df st
            else sales_df st' = sales_df st) \<and>
           original_sales_df st' = original_sales_df st \<and>
           original_claims_df st' = original_claims_df st"
proof -
  from update_cell_accepted [OF assms(2)] obtain df r0 v where
    df: "frame_of st table = Some df" and col: "column \<in> set (columns df)" "column \<noteq> ''_row_id''"
    and r0: "find (has_row_id row_id) (rows df) = Some r0"
    and v: "validate_value env table column value = Inr v"
    and ch: "apply_change env now table row_id column (r0 column) v df st = Inr (Updated ov nv, st')"
    by blast
  have ids: "row_ids df"
    using reachable_inv [OF assms(1)] df by (rule frame_row_ids)
  from find_row_id [OF ids r0] have rid: "0 \<le> row_id" "nat row_id < length (rows df)"
    by simp_all
  have uniq: "\<forall>i < length (rows df). has_row_id row_id (rows df ! i) = (i = nat row_id)"
    using has_row_id_nth [OF ids] rid by auto
  from apply_change_result [OF ch] loc_assign_frame [OF ids rid] df col v rid uniq
  show ?thesis by auto
qed

theorem update_cell_one_cell_witness:
  "(case update_cell demo_env ''2024-05-01T10:00:00'' ''sales'' 1 ''Dealer'' (VStr ''West'') demo_state of
      Inr (Updated ov nv, st') \<Rightarrow>
        map_option (\<lambda>df. map (\<lambda>r. (r ''Policy No'', r ''Dealer'')) (rows df)) (sales_df st') =
          Some [(VStr ''A'', VStr ''North''), (VStr ''B'', VStr ''West''), (VStr ''C'', VStr ''South'')] \<and>
        claims_df st' = claims_df demo_state \<and>
        original_sales_df st' = original_sales_df demo_state \<and>
        original_claims_df st' = original_claims_df demo_state
    | _ \<Rightarrow> False)"
proof -
  from demo_edit obtain st' where u: "update_cell demo_env ''2024-05-01T10:00:00'' ''sales'' 1 ''Dealer'' (VStr ''West'') demo_state = Inr (Updated (VStr ''North'') (VStr ''West''), st')"
    by blast
  from update_cell_one_cell [OF demo_reachable u] obtain df v where
    df: "frame_of demo_state ''sales'' = Some df" and
    v: "validate_value demo_env ''sales'' ''Dealer'' (VStr ''West'') = Inr v" and
    fr: "frame_of st' ''sales'' = Some (df\<lparr> rows := (rows df)[nat 1 := (rows df ! nat 1)(''Dealer'' := v)] \<rparr>)" and
    rest: "claims_df st' = claims_df demo_state" "original_sales_df st' = original_sales_df demo_state"
      "original_claims_df st' = original_claims_df demo_state"
    by auto
  from df have df': "df = demo_sales_ids" by (simp add: frame_of_def demo_frames)
  from v have v': "v = VStr ''West''" by (simp add: validate_value_def numeric_cols_def)
  from fr have "map_option (\<lambda>df. map (\<lambda>r. (r ''Policy No'', r ''Dealer'')) (rows df)) (sales_df st') =
          Some [(VStr ''A'', VStr ''North''), (VStr ''B'', VStr ''West''), (VStr ''C'', VStr ''South'')]"
    by (simp add: frame_of_def df' v' demo_sales_ids_def demo_sales_def mk_row_def)
  with rest show ?thesis by (simp add: u)
qed

subsection \<open>Reset restores the originals\<close>

lemma cell_at_find:
  "find (has_row_id row_id) (rows df) = Some r0 \<Longrightarrow> cell_at df row_id column = Some (r0 column)"
  by (simp add: cell_at_def)

text \<open>
  Claim C4. In every state of a session, for every table, row identifier, column and
  value that \<^verbatim>\<open>update_cell\<close> accepts: the reset that follows the edit succeeds, returns
  the length the change log had just before it (one more than before the edit), leaves
  the change log empty and makes each working frame its original snapshot again, so
  that the cell read afterwards is the one of the snapshot; when the frame had no pending
  edit before this one, that is the value the edit reported as old. A reset in any state
  of a session returns the length of the log at that moment and empties it.
\<close>

theorem reset_restores_originals:
  assumes "reachable env st"
    and "update_cell env now table row_id column value st = Inr (Updated ov nv, st1)"
  shows "(\<exists>st2 os oc.
            reset_data st1 = Inr (Reverted (Suc (length (change_log st))), st2) \<and>
            original_sales_df st = Some os \<and> original_claims_df st = Some oc \<and>
            sales_df st2 = Some os \<and> claims_df st2 = Some oc \<and>
            frame_of st2 table = original_of st table \<and>
            change_log st2 = [] \<and>
            (frame_of st table = original_of st table \<longrightarrow>
               (\<exists>df old. frame_of st2 table = Some df \<and> cell_at df row_id column = Some old \<and>
                         ov = serialize env old))) \<and>
         (\<exists>st'. reset_data st = Inr (Reverted (length (change_log st)), st') \<and>
                change_log st' = [] \<and>
                sales_df st' = original_sales_df st \<and> claims_df st' = original_claims_df st)"
proof -
  from reachable_inv [OF assms(1)] obtain os oc m where o:
    "original_sales_df st = Some os" "original_claims_df st = Some oc" "merged_view os oc = Inr m"
    by (auto simp: loaded_inv_def)
  from update_cell_accepted [OF assms(2)] obtain df r0 v where
    df: "frame_of st table = Some df"
    and r0: "find (has_row_id row_id) (rows df) = Some r0"
    and ch: "apply_change env now table row_id column (r0 column) v df st = Inr (Updated ov nv, st1)"
    by blast
  note r = apply_change_result [OF ch]
  from r o have o1: "original_sales_df st1 = Some os" "original_claims_df st1 = Some oc"
    by simp_all
  from r have len: "length (change_log st1) = Suc (length (change_log st))" by simp
  note rs = reset_data_result [OF o1 o(3)]
  let ?st2 = "st1\<lparr> sales_df := Some os, claims_df := Some oc, merged_df := Some m,
                  query_cache := Map.empty, metrics_dirty := True, change_log := [] \<rparr>"
  have fr: "frame_of ?st2 table = original_of st table"
    using o by (simp add: frame_of_def original_of_def)
  have pre: "frame_of st table = original_of st table \<longrightarrow>
               (\<exists>df old. frame_of ?st2 table = Some df \<and> cell_at df row_id column = Some old \<and>
                         ov = serialize env old)"
  proof
    assume "frame_of st table = original_of st table"
    with fr df have "frame_of ?st2 table = Some df" by simp
    moreover from r have "ov = serialize env (r0 column)" by simp
    ultimately show "\<exists>df old. frame_of ?st2 table = Some df \<and> cell_at df row_id column = Some old \<and>
                         ov = serialize env old"
      using cell_at_find [OF r0] by blast
  qed
  have first: "\<exists>st2 os oc.
            reset_data st1 = Inr (Reverted (Suc (length (change_log st))), st2) \<and>
            original_sales_df st = Some os \<and> original_claims_df st = Some oc \<and>
            sales_df st2 = Some os \<and> claims_df st2 = Some oc \<and>
            frame_of st2 table = original_of st table \<and>
            change_log st2 = [] \<and>
            (frame_of st table = original_of st table \<longrightarrow>
               (\<exists>df old. frame_of st2 table = Some df \<and> cell_at df row_id column = Some old \<and>
                         ov = serialize env old))"
    using rs len o fr pre by (intro exI [of _ ?st2] exI [of _ os] exI [of _ oc]) simp
  have second: "\<exists>st'. reset_data st = Inr (Reverted (length (change_log st)), st') \<and>
                change_log st' = [] \<and>
                sales_df st' = original_sales_df st \<and> claims_df st' = original_claims_df st"
    using reset_data_result [OF o] o by simp
  from first second show ?thesis by blast
qed

theorem reset_restores_originals_witness:
  "(case update_cell demo_env ''2024-05-01T10:00:00'' ''sales'' 1 ''Dealer'' (VStr ''West'') demo_state of
      Inr (Updated ov nv, st1) \<Rightarrow>
        (case reset_data st1 of
           Inr (Reverted n, st2) \<Rightarrow>
             n = 1 \<and> change_log st2 = [] \<and> ov = VStr ''North'' \<and>
             map_option (\<lambda>df. cell_at df 1 ''Dealer'') (sales_df st2) = Some (Some (VStr ''North''))
         | _ \<Rightarrow> False)
    | _ \<Rightarrow> False)"
proof -
  from demo_edit obtain st1 where u: "update_cell demo_env ''2024-05-01T10:00:00'' ''sales'' 1 ''Dealer'' (VStr ''West'') demo_state = Inr (Updated (VStr ''North'') (VStr ''West''), st1)"
    by blast
  from reset_restores_originals [OF demo_reachable u] obtain st2 where
    r: "reset_data st1 = Inr (Reverted (Suc (length (change_log demo_state))), st2)"
    and fr: "frame_of st2 ''sales'' = original_of demo_state ''sales''"
    and lg: "change_log st2 = []"
    by blast
  have cell: "cell_at demo_sales_ids 1 ''Dealer'' = Some (VStr ''North'')"
    by (simp add: cell_at_def demo_find_1) (simp add: demo_sales_ids_def demo_sales_def mk_row_def)
  from fr have "sales_df st2 = Some demo_sales_ids"
    by (simp add: frame_of_def original_of_def demo_frames)
  with r lg cell show ?thesis
    by (simp add: u demo_frames)
qed

subsection \<open>Rejected edits\<close>

lemma validate_negative_premium:
  "validate_value env ''sales'' ''Gross Premium'' (VInt (- 5)) = Inl (MustBeNonNegative ''Gross Premium'')"
  by (simp add: validate_value_def numeric_cols_def)

text \<open>
  Claim C2. Whenever the addressed working frame is loaded (every table name addresses
  one, and a loaded frame has the column \<^verbatim>\<open>_row_id\<close>), \<^verbatim>\<open>update_cell\<close> returns the
  failure of a missing column when the column is not a label of the frame, the failure of
  the immutable column when the column is \<^verbatim>\<open>_row_id\<close>, the failure of a missing row
  when the column is editable and no working row carries the identifier, and the
  Validator's failure when the row is there and the Validator rejects the value; a
  negative \<^verbatim>\<open>Gross Premium\<close> of the sales table is such a rejection. In each case the
  failure is a returned value and the state returned is the state before: working
  frames, merged view, change log and cache are untouched.
\<close>

theorem update_cell_failures:
  assumes "frame_of st table = Some df" and "''_row_id'' \<in> set (columns df)"
  shows
   "(column \<notin> set (columns df) \<longrightarrow>
       update_cell env now table row_id column new_val st = Inr (UpdateFailed (ColumnNotFound column), st)) \<and>
    (column = ''_row_id'' \<longrightarrow>
       update_cell env now table row_id column new_val st = Inr (UpdateFailed CannotEditRowId, st)) \<and>
    (column \<in> set (columns df) \<and> column \<noteq> ''_row_id'' \<and> \<not> list_ex (has_row_id row_id) (rows df) \<longrightarrow>
       update_cell env now table row_id column new_val st = Inr (UpdateFailed (RowNotFound row_id), st)) \<and>
    (column \<in> set (columns df) \<and> column \<noteq> ''_row_id'' \<and> list_ex (has_row_id row_id) (rows df) \<and>
       validate_value env table column new_val = Inl err \<longrightarrow>
       update_cell env now table row_id column new_val st = Inr (UpdateFailed err, st)) \<and>
    validate_value env ''sales'' ''Gross Premium'' (VInt (- 5)) = Inl (MustBeNonNegative ''Gross Premium'')"
proof -
  have none: "\<not> list_ex (has_row_id row_id) (rows df) \<Longrightarrow> find (has_row_id row_id) (rows df) = None"
    by (simp add: find_None_iff list_ex_iff)
  have some: "list_ex (has_row_id row_id) (rows df) \<Longrightarrow> \<exists>r. find (has_row_id row_id) (rows df) = Some r"
    by (cases "find (has_row_id row_id) (rows df)") (auto simp: find_None_iff list_ex_iff)
  from assms show ?thesis
    using none some validate_negative_premium
    by (auto simp: update_cell_def)
qed

theorem update_cell_failures_witness:
  "update_cell demo_env ''2024-05-01T10:00:00'' ''sales'' 0 ''Colour'' (VStr ''red'') demo_state =
     Inr (UpdateFailed (ColumnNotFound ''Colour''), demo_state) \<and>
   update_cell demo_env ''2024-05-01T10:00:00'' ''sales'' 0 ''_row_id'' (VInt 9) demo_state =
     Inr (UpdateFailed CannotEditRowId, demo_state) \<and>
   update_cell demo_env ''2024-05-01T10:00:00'' ''sales'' 7 ''Dealer'' (VStr ''West'') demo_state =
     Inr (UpdateFailed (RowNotFound 7), demo_state) \<and>
   update_cell demo_env ''2024-05-01T10:00:00'' ''sales'' 0 ''Gross Premium'' (VInt (- 5)) demo_state =
     Inr (UpdateFailed (MustBeNonNegative ''Gross Premium''), demo_state)"
proof -
  have f: "frame_of demo_state ''sales'' = Some demo_sales_ids"
    by (simp add: frame_of_def demo_frames)
  have c: "''_row_id'' \<in> set (columns demo_sales_ids)" "''Colour'' \<notin> set (columns demo_sales_ids)"
    "''Dealer'' \<in> set (columns demo_sales_ids)" "''Gross Premium'' \<in> set (columns demo_sales_ids)"
    by (simp_all add: demo_sales_ids_def demo_sales_def)
  have r: "\<not> list_ex (has_row_id 7) (rows demo_sales_ids)" "list_ex (has_row_id 0) (rows demo_sales_ids)"
    by (simp_all add: demo_sales_ids_def demo_sales_def has_row_id_def)
  have v: "validate_value demo_env ''sales'' ''Gross Premium'' (VInt (- 5)) = Inl (MustBeNonNegative ''Gross Premium'')"
    by (simp add: validate_value_def numeric_cols_def)
  from update_cell_failures [OF f c(1), where column = "''Colour''"] c
  have 1: "update_cell demo_env ''2024-05-01T10:00:00'' ''sales'' 0 ''Colour'' (VStr ''red'') demo_state =
     Inr (UpdateFailed (ColumnNotFound ''Colour''), demo_state)" by blast
  from update_cell_failures [OF f c(1), where column = "''_row_id''"]
  have 2: "update_cell demo_env ''2024-05-01T10:00:00'' ''sales'' 0 ''_row_id'' (VInt 9) demo_state =
     Inr (UpdateFailed CannotEditRowId, demo_state)" by blast
  from update_cell_failures [OF f c(1), where column = "''Dealer''" and row_id = 7] c r
  have 3: "update_cell demo_env ''2024-05-01T10:00:00'' ''sales'' 7 ''Dealer'' (VStr ''West'') demo_state =
     Inr (UpdateFailed (RowNotFound 7), demo_state)" by simp
  from update_cell_failures [OF f c(1), where column = "''Gross Premium''" and row_id = 0
      and env = demo_env and new_val = "VInt (- 5)" and err = "MustBeNonNegative ''Gross Premium''"] c r v
  have 4: "update_cell demo_env ''2024-05-01T10:00:00'' ''sales'' 0 ''Gross Premium'' (VInt (- 5)) demo_state =
     Inr (UpdateFailed (MustBeNonNegative ''Gross Premium''), demo_state)" by simp
  from 1 2 3 4 show ?thesis by simp
qed

subsection \<open>Before any load\<close>


subsection \<open>The cache and its keys\<close>

lemma map_of_filter_key: "map_of (filter (\<lambda>p. fst p = k) xs) k = map_of xs k"
  by (induction xs) auto

lemma sorted_items_map_of:
  assumes "sort_key fst f = sort_key fst f'"
  shows "map_of f = map_of f'"
proof
  fix k
  have "map_of f k = map_of (filter (\<lambda>p. fst p = k) (sort_key fst f)) k"
    by (simp only: sort_key_stable map_of_filter_key)
  also have "\<dots> = map_of (filter (\<lambda>p. fst p = k) (sort_key fst f')) k"
    by (simp only: assms)
  also have "\<dots> = map_of f' k"
    by (simp only: sort_key_stable map_of_filter_key)
  finally show "map_of f k = map_of f' k" .
qed

lemma sort_key_Nil_iff: "sort_key g xs = [] \<longleftrightarrow> xs = []"
  by (metis length_sort list.size(3) length_0_conv)

lemma cache_key_filters:
  assumes "get_cache_key n f = get_cache_key n' f'"
  shows "map_of (or_empty f) = map_of (or_empty f')"
proof (cases "f = None \<or> f = Some []")
  case True
  with assms have "f' = None \<or> f' = Some []"
    by (auto simp: get_cache_key_def split: option.splits if_splits)
  with True show ?thesis by (auto simp: or_empty_def)
next
  case False
  then obtain xs where xs: "f = Some xs" "xs \<noteq> []" by (cases f) auto
  with assms obtain ys where ys: "f' = Some ys" "ys \<noteq> []"
    by (cases f') (auto simp: get_cache_key_def split: if_splits)
  from assms xs ys have "sort_key fst xs = sort_key fst ys"
    by (simp add: get_cache_key_def)
  from sorted_items_map_of [OF this] xs ys show ?thesis by (simp add: or_empty_def)
qed

lemma fst_cache_key [simp]: "fst (get_cache_key n f) = n"
  by (simp add: get_cache_key_def split: option.splits)

lemma apply_filters_cong:
  assumes "map_of f = map_of f'"
  shows "apply_filters env df f = apply_filters env df f'"
proof -
  from assms have g: "fget f = fget f'" by (simp add: fget_def fun_eq_iff)
  then have a: "active f = active f'" by (simp add: active_def fun_eq_iff)
  show ?thesis
    unfolding apply_filters_def before_dates_def date_from_filter_def date_to_filter_def
      after_dates_def g a ..
qed

lemma compute_summary_cong:
  assumes "map_of f = map_of f'"
  shows "compute_summary env s c m f = compute_summary env s c m f'"
  unfolding compute_summary_def apply_filters_cong [OF assms] ..

lemma get_summary_miss:
  assumes "query_cache st (get_cache_key ''get_summary'' filters) = None"
    and "sales_df st = Some s" and "claims_df st = Some c"
  shows "get_summary env filters st =
         bind_exn (compute_summary env s c (merged_df st) (or_empty filters)) (\<lambda>res.
           Inr (res, st\<lparr> query_cache :=
                  (query_cache st)(get_cache_key ''get_summary'' filters \<mapsto> res) \<rparr>))"
  using assms by (simp add: get_summary_def Let_def)

lemma cached_read_miss:
  assumes "query_cache st (get_cache_key name filters) = None"
  shows "cached_read name frame nothing body filters st =
         (case frame st of
            None \<Rightarrow> Inr (nothing, st)
          | Some df \<Rightarrow> body df (or_empty filters) (get_cache_key name filters) st)"
  using assms by (simp add: cached_read_def Let_def)

lemma cache_fresh_empty: "query_cache st = Map.empty \<Longrightarrow> cache_fresh env st"
  by (simp add: cache_fresh_def)

lemma cache_fresh_summary:
  assumes "cache_fresh env st" and "get_summary env filters st = Inr (r, st')"
  shows "cache_fresh env st'"
proof (cases "query_cache st (get_cache_key ''get_summary'' filters)")
  case (Some res)
  with assms(2) have "st' = st" by (simp add: get_summary_def Let_def)
  with assms(1) show ?thesis by simp
next
  case None
  show ?thesis
  proof (cases "sales_df st")
    case n: None
    with None assms(2) have "st' = st" by (simp add: get_summary_def Let_def)
    with assms(1) show ?thesis by simp
  next
    case (Some s)
    with None assms(2) obtain c where c: "claims_df st = Some c"
      by (cases "claims_df st") (auto simp: get_summary_def Let_def)
    from get_summary_miss [OF None Some c, of env] assms(2)
    have comp: "compute_summary env s c (merged_df st) (or_empty filters) = Inr r"
      and st': "st' = st\<lparr> query_cache := (query_cache st)(get_cache_key ''get_summary'' filters \<mapsto> r) \<rparr>"
      by (auto simp: bind_exn_def split: sum.splits)
    show ?thesis
      unfolding cache_fresh_def
    proof (intro allI impI)
      fix f res
      assume q: "query_cache st' (get_cache_key ''get_summary'' f) = Some res"
      show "\<exists>s c. sales_df st' = Some s \<and> claims_df st' = Some c \<and>
                  compute_summary env s c (merged_df st') (or_empty f) = Inr res"
      proof (cases "get_cache_key ''get_summary'' f = get_cache_key ''get_summary'' filters")
        case True
        with q st' have "res = r" by simp
        moreover from cache_key_filters [OF True]
        have "compute_summary env s c (merged_df st) (or_empty f) =
              compute_summary env s c (merged_df st) (or_empty filters)"
          by (rule compute_summary_cong)
        ultimately show ?thesis using comp Some c st' by simp
      next
        case False
        with q st' have "query_cache st (get_cache_key ''get_summary'' f) = Some res" by simp
        with assms(1) st' show ?thesis by (simp add: cache_fresh_def)
      qed
    qed
  qed
qed

lemma load_excel_cache:
  assumes "load_excel a b = Inr st"
  shows "query_cache st = Map.empty"
proof -
  from assms obtain st0 where b: "build_merged
          ((clear_cache init)\<lparr> original_sales_df := Some (projr (insert_row_id a)),
             original_claims_df := Some (projr (insert_row_id b)),
             sales_df := Some (projr (insert_row_id a)),
             claims_df := Some (projr (insert_row_id b)) \<rparr>) = Inr st0"
    and st: "st = st0\<lparr> metrics_dirty := True, change_log := [] \<rparr>"
    by (auto simp: load_excel_def split: sum.splits)
  from build_merged_keeps [OF b] st show ?thesis by (simp add: clear_cache_def)
qed

lemma reset_data_cache:
  assumes "reset_data st = Inr (Reverted n, st')"
  shows "query_cache st' = Map.empty"
proof -
  from assms obtain os oc st1 where
    "build_merged (st\<lparr> sales_df := Some os, claims_df := Some oc \<rparr>) = Inr st1"
    "st' = (clear_cache st1)\<lparr> change_log := [] \<rparr>"
    by (auto simp: reset_data_def Let_def split: option.splits sum.splits)
  then show ?thesis by (simp add: clear_cache_def)
qed

lemma reset_data_failed:
  assumes "reset_data st = Inr (ResetFailed f, st')"
  shows "st' = st"
  using assms by (auto simp: reset_data_def Let_def split: option.splits sum.splits)

lemma reachable_cache_fresh: "reachable env st \<Longrightarrow> cache_fresh env st"
proof (induction rule: reachable.induct)
  case (loaded sales_sheet claims_sheet st)
  then show ?case by (simp add: cache_fresh_empty load_excel_cache)
next
  case (edited st now table row_id column "value" res st')
  show ?case
  proof (cases res)
    case (UpdateFailed f)
    with edited update_cell_rejected show ?thesis by blast
  next
    case (Updated ov nv)
    with edited(2) update_cell_accepted obtain df r0 v where
      "apply_change env now table row_id column (r0 column) v df st = Inr (Updated ov nv, st')"
      by blast
    from apply_change_result [OF this] show ?thesis by (simp add: cache_fresh_empty)
  qed
next
  case (reset st res st')
  show ?case
  proof (cases res)
    case (ResetFailed f)
    with reset reset_data_failed show ?thesis by blast
  next
    case (Reverted n)
    with reset(2) reset_data_cache show ?thesis by (simp add: cache_fresh_empty)
  qed
next
  case (summary st filters r st')
  then show ?case using cache_fresh_summary by blast
next
  case (cached st k v)
  show ?case
    unfolding cache_fresh_def
  proof (intro allI impI)
    fix f res
    assume q: "query_cache (st\<lparr> query_cache := (query_cache st)(k \<mapsto> v) \<rparr>)
                 (get_cache_key ''get_summary'' f) = Some res"
    from cached(2) have "k \<noteq> get_cache_key ''get_summary'' f" by auto
    with q have "query_cache st (get_cache_key ''get_summary'' f) = Some res" by simp
    with cached(3) show "\<exists>s c. sales_df (st\<lparr> query_cache := (query_cache st)(k \<mapsto> v) \<rparr>) = Some s \<and>
         claims_df (st\<lparr> query_cache := (query_cache st)(k \<mapsto> v) \<rparr>) = Some c \<and>
         compute_summary env s c (merged_df (st\<lparr> query_cache := (query_cache st)(k \<mapsto> v) \<rparr>)) (or_empty f) = Inr res"
      by (simp add: cache_fresh_def)
  qed
qed

subsection \<open>Mutations empty the cache\<close>

text \<open>
  Claim C3. In every state of a session each cached summary is the summary of the
  current working frames and merged view. Every accepted \<^verbatim>\<open>update_cell\<close> and every
  successful \<^verbatim>\<open>reset_data\<close> leaves the cache empty, whatever it held. So after an
  accepted edit no operation finds its key, for any method name and any specification:
  a cached read runs its pipeline on the current frames, and \<^verbatim>\<open>get_summary\<close>
  computes the summary of the current frames and stores it afresh.
\<close>

theorem mutation_clears_cache:
  "(reachable env st \<longrightarrow> cache_fresh env st) \<and>
   (update_cell env now table row_id column new_val st = Inr (Updated ov nv, st') \<longrightarrow>
      query_cache st' = Map.empty \<and> cache_fresh env st' \<and>
      cached_read name frame nothing body filters st' =
        (case frame st' of
           None \<Rightarrow> Inr (nothing, st')
         | Some df \<Rightarrow> body df (or_empty filters) (get_cache_key name filters) st') \<and>
      get_summary env filters st' =
        (case sales_df st' of
           None \<Rightarrow> Inr (Mapping [], st')
         | Some s \<Rightarrow>
             (case claims_df st' of
                None \<Rightarrow> Inl AttributeError
              | Some c \<Rightarrow>
                  bind_exn (compute_summary env s c (merged_df st') (or_empty filters)) (\<lambda>res.
                    Inr (res, st'\<lparr> query_cache :=
                           [get_cache_key ''get_summary'' filters \<mapsto> res] \<rparr>))))) \<and>
   (reset_data st = Inr (Reverted n, st') \<longrightarrow>
      query_cache st' = Map.empty \<and> cache_fresh env st')"
proof (intro conjI impI)
  assume "reachable env st"
  then show "cache_fresh env st" by (rule reachable_cache_fresh)
next
  assume u: "update_cell env now table row_id column new_val st = Inr (Updated ov nv, st')"
  from update_cell_accepted [OF u] obtain df r0 v where
    df: "frame_of st table = Some df" and
    ch: "apply_change env now table row_id column (r0 column) v df st = Inr (Updated ov nv, st')"
    by blast
  note r = apply_change_result [OF ch]
  from r show e: "query_cache st' = Map.empty" by simp
  then show "cache_fresh env st'" by (rule cache_fresh_empty)
  from e show "cached_read name frame nothing body filters st' =
        (case frame st' of
           None \<Rightarrow> Inr (nothing, st')
         | Some df \<Rightarrow> body df (or_empty filters) (get_cache_key name filters) st')"
    by (simp add: cached_read_miss)
  from e show "get_summary env filters st' =
        (case sales_df st' of
           None \<Rightarrow> Inr (Mapping [], st')
         | Some s \<Rightarrow>
             (case claims_df st' of
                None \<Rightarrow> Inl AttributeError
              | Some c \<Rightarrow>
                  bind_exn (compute_summary env s c (merged_df st') (or_empty filters)) (\<lambda>res.
                    Inr (res, st'\<lparr> query_cache :=
                           [get_cache_key ''get_summary'' filters \<mapsto> res] \<rparr>))))"
    by (simp add: get_summary_def Let_def split: option.splits)
next
  assume "reset_data st = Inr (Reverted n, st')"
  then show e: "query_cache st' = Map.empty" by (rule reset_data_cache)
  then show "cache_fresh env st'" by (rule cache_fresh_empty)
qed

lemma apply_filters_empty: "apply_filters env df [] = Inr df"
  by (simp add: apply_filters_def before_dates_def date_from_filter_def date_to_filter_def
      after_dates_def active_def fget_def bind_exn_def)

lemma demo_cache: "query_cache demo_state = Map.empty"
  using demo_loaded by (rule load_excel_cache)

lemma demo_merged_view:
  "\<exists>m. merged_view demo_sales_ids demo_claims_ids = Inr m \<and>
       ''has_claim'' \<in> set (columns m) \<and>
       series m ''has_claim'' = [VBool True, VBool False, VBool False]"
  by (simp add: demo_sales_ids_def demo_claims_ids_def demo_sales_def demo_claims_def eval_defs)

lemma demo_summary:
  "\<exists>r. get_summary demo_env None demo_state =
         Inr (r, demo_state\<lparr> query_cache := [get_cache_key ''get_summary'' None \<mapsto> r] \<rparr>) \<and>
       result_get r ''totalPremium'' = Some (VNum 6000)"
proof -
  from demo_merged_view obtain m where m: "merged_view demo_sales_ids demo_claims_ids = Inr m"
    "''has_claim'' \<in> set (columns m)" "series m ''has_claim'' = [VBool True, VBool False, VBool False]"
    by blast
  from reachable_inv [OF demo_reachable] m(1) have md: "merged_df demo_state = Some m"
    by (auto simp: loaded_inv_def demo_frames)
  have p: "col_total demo_sales_ids ''Gross Premium'' = Inr 6000"
    by (simp add: col_total_def series_def demo_sales_ids_def demo_sales_def mk_row_def)
  have rp: "col_total demo_sales_ids ''Risk Premium'' = Inr 0"
    by (simp add: col_total_def series_def demo_sales_ids_def demo_sales_def mk_row_def)
  have ca: "col_total demo_claims_ids ''Total Auth Amount'' = Inr 150"
    by (simp add: col_total_def series_def demo_claims_ids_def demo_claims_def mk_row_def)
  have rd: "round_to demo_env 6000 2 = 6000"
    by (simp add: demo_env_def round_half_even_def)
  have "\<exists>fs. compute_summary demo_env demo_sales_ids demo_claims_ids (Some m) [] = Inr (Mapping fs) \<and>
             map_of fs ''totalPremium'' = Some (VNum 6000)"
    by (simp add: compute_summary_def apply_filters_empty bind_exn_def p rp ca m rd Let_def)
  then obtain fs where fs: "compute_summary demo_env demo_sales_ids demo_claims_ids (Some m) [] = Inr (Mapping fs)"
    "map_of fs ''totalPremium'' = Some (VNum 6000)" by blast
  have "get_summary demo_env None demo_state =
         Inr (Mapping fs, demo_state\<lparr> query_cache := [get_cache_key ''get_summary'' None \<mapsto> Mapping fs] \<rparr>)"
    using get_summary_miss [of demo_state None demo_sales_ids demo_claims_ids demo_env] fs(1)
    by (simp add: demo_cache demo_frames md or_empty_def bind_exn_def)
  with fs(2) show ?thesis by (simp add: result_get_def)
qed


lemma demo_find_0: "find (has_row_id 0) (rows demo_sales_ids) = Some (rows demo_sales_ids ! 0)"
  by (simp add: demo_sales_ids_def demo_sales_def has_row_id_def)

lemma demo_repriced_view:
  "\<exists>m. merged_view (loc_assign 0 ''Gross Premium'' (VNum 1500) demo_sales_ids) demo_claims_ids = Inr m \<and>
       ''has_claim'' \<in> set (columns m) \<and>
       series m ''has_claim'' = [VBool True, VBool False, VBool False]"
  by (simp add: loc_assign_def has_row_id_def demo_sales_ids_def demo_claims_ids_def
        demo_sales_def demo_claims_def eval_defs)

theorem mutation_clears_cache_witness:
  "(case get_summary demo_env None demo_state of
      Inr (r0, st1) \<Rightarrow>
        (case update_cell demo_env ''2024-05-01T10:00:00'' ''sales'' 0 ''Gross Premium'' (VInt 1500) st1 of
           Inr (Updated ov nv, st2) \<Rightarrow>
             (case get_summary demo_env None st2 of
                Inr (r2, st3) \<Rightarrow>
                  query_cache st1 (get_cache_key ''get_summary'' None) = Some r0 \<and>
                  result_get r0 ''totalPremium'' = Some (VNum 6000) \<and>
                  query_cache st2 = Map.empty \<and>
                  result_get r2 ''totalPremium'' = Some (VNum 6500) \<and>
                  cache_fresh demo_env st1 \<and>
                  (case reset_data st3 of
                     Inr (Reverted n, st4) \<Rightarrow> query_cache st4 = Map.empty
                   | _ \<Rightarrow> False)
              | _ \<Rightarrow> False)
         | _ \<Rightarrow> False)
    | _ \<Rightarrow> False)"
proof -
  let ?now = "''2024-05-01T10:00:00''"
  let ?s2 = "loc_assign 0 ''Gross Premium'' (VNum 1500) demo_sales_ids"
  from demo_summary obtain r0 where
    g0: "get_summary demo_env None demo_state =
           Inr (r0, demo_state\<lparr> query_cache := [get_cache_key ''get_summary'' None \<mapsto> r0] \<rparr>)"
    and f0: "result_get r0 ''totalPremium'' = Some (VNum 6000)"
    by blast
  let ?st1 = "demo_state\<lparr> query_cache := [get_cache_key ''get_summary'' None \<mapsto> r0] \<rparr>"
  from demo_repriced_view obtain m2 where m2: "merged_view ?s2 demo_claims_ids = Inr m2"
    "''has_claim'' \<in> set (columns m2)" "series m2 ''has_claim'' = [VBool True, VBool False, VBool False]"
    by blast
  have v: "validate_value demo_env ''sales'' ''Gross Premium'' (VInt 1500) = Inr (VNum 1500)"
    by (simp add: validate_value_def numeric_cols_def)
  have "\<exists>st'. update_cell demo_env ?now ''sales'' 0 ''Gross Premium'' (VInt 1500) ?st1 =
         Inr (Updated (serialize demo_env ((rows demo_sales_ids ! 0) ''Gross Premium''))
                      (serialize demo_env (VNum 1500)), st')"
    by (rule update_cell_total [where s = demo_sales_ids and c = demo_claims_ids and df = demo_sales_ids and m = m2,
          OF _ _ _ _ _ _ demo_find_0 v])
       (simp_all add: frame_of_def demo_frames m2, simp_all add: demo_sales_ids_def demo_sales_def)
  then obtain ov nv st2 where u: "update_cell demo_env ?now ''sales'' 0 ''Gross Premium'' (VInt 1500) ?st1 =
         Inr (Updated ov nv, st2)" by blast
  from update_cell_accepted [OF u] obtain df r0' v' where
    df: "frame_of ?st1 ''sales'' = Some df"
    and v': "validate_value demo_env ''sales'' ''Gross Premium'' (VInt 1500) = Inr v'"
    and ch: "apply_change demo_env ?now ''sales'' 0 ''Gross Premium'' (r0' ''Gross Premium'') v' df ?st1 =
               Inr (Updated ov nv, st2)"
    by blast
  from df have df': "df = demo_sales_ids" by (simp add: frame_of_def demo_frames)
  from v v' have v'': "v' = VNum 1500" by simp
  note r = apply_change_result [OF ch]
  from r df' v'' have s2: "sales_df st2 = Some ?s2" "claims_df st2 = Some demo_claims_ids"
    by (simp_all add: frame_of_def demo_frames)
  with r m2(1) have md: "merged_df st2 = Some m2" by auto
  note t = mutation_clears_cache [of demo_env ?st1 ?now "''sales''" 0 "''Gross Premium''" "VInt 1500" ov nv st2
      "''get_summary''" sales_df "Mapping []" "\<lambda>df f k st. Inr (Mapping [], st)" None 0]
  from t u have e: "query_cache st2 = Map.empty" by blast
  from t u s2 md have g2: "get_summary demo_env None st2 =
      bind_exn (compute_summary demo_env ?s2 demo_claims_ids (Some m2) (or_empty None)) (\<lambda>res.
        Inr (res, st2\<lparr> query_cache := [get_cache_key ''get_summary'' None \<mapsto> res] \<rparr>))"
    by simp
  have p: "col_total ?s2 ''Gross Premium'' = Inr 6500"
    by (simp add: col_total_def series_def loc_assign_def has_row_id_def demo_sales_ids_def demo_sales_def mk_row_def)
  have rp: "col_total ?s2 ''Risk Premium'' = Inr 0"
    by (simp add: col_total_def series_def loc_assign_def demo_sales_ids_def demo_sales_def)
  have ca: "col_total demo_claims_ids ''Total Auth Amount'' = Inr 150"
    by (simp add: col_total_def series_def demo_claims_ids_def demo_claims_def mk_row_def)
  have rd: "round_to demo_env 6500 2 = 6500"
    by (simp add: demo_env_def round_half_even_def)
  have "\<exists>fs. compute_summary demo_env ?s2 demo_claims_ids (Some m2) [] = Inr (Mapping fs) \<and>
             map_of fs ''totalPremium'' = Some (VNum 6500)"
    by (simp add: compute_summary_def apply_filters_empty bind_exn_def p rp ca m2 rd Let_def)
  then obtain fs where fs: "compute_summary demo_env ?s2 demo_claims_ids (Some m2) [] = Inr (Mapping fs)"
    "map_of fs ''totalPremium'' = Some (VNum 6500)" by blast
  from g2 fs(1) have g2': "get_summary demo_env None st2 =
      Inr (Mapping fs, st2\<lparr> query_cache := [get_cache_key ''get_summary'' None \<mapsto> Mapping fs] \<rparr>)"
    by (simp add: or_empty_def bind_exn_def)
  let ?st3 = "st2\<lparr> query_cache := [get_cache_key ''get_summary'' None \<mapsto> Mapping fs] \<rparr>"
  have "reachable demo_env ?st1"
    using demo_reachable g0 by (rule reachable.summary)
  with mutation_clears_cache [of demo_env ?st1] have fresh: "cache_fresh demo_env ?st1" by blast
  from demo_merged obtain m where m: "merged_view demo_sales_ids demo_claims_ids = Inr m" ..
  from r have o: "original_sales_df ?st3 = Some demo_sales_ids" "original_claims_df ?st3 = Some demo_claims_ids"
    by (simp_all add: demo_frames)
  from reset_data_result [OF o m] obtain n st4 where rs: "reset_data ?st3 = Inr (Reverted n, st4)"
    by blast
  with mutation_clears_cache [of demo_env ?st3 _ _ _ _ _ _ _ st4 _ _ _ _ _ n]
  have e4: "query_cache st4 = Map.empty" by blast
  from f0 e fs(2) fresh e4 show ?thesis
    by (simp add: g0 u g2' rs result_get_def)
qed

subsection \<open>Pages\<close>



subsection \<open>What the filters keep\<close>

lemma columns_keep_rows [simp]: "columns (keep_rows p df) = columns df"
  by (simp add: keep_rows_def)

lemma columns_eq_filter [simp]: "columns (eq_filter col v df) = columns df"
  by (simp add: eq_filter_def split: option.splits)

lemma columns_date_filter [simp]: "columns (date_filter env cmp b df) = columns df"
  by (simp add: date_filter_def split: option.splits dtres.splits)

lemma columns_date_from [simp]: "columns (date_from_filter env filters df) = columns df"
  by (simp add: date_from_filter_def)

lemma columns_date_to [simp]: "columns (date_to_filter env filters df) = columns df"
  by (simp add: date_to_filter_def)

lemma columns_int_filter: "int_filter env c v df = Inr df' \<Longrightarrow> columns df' = columns df"
  by (auto simp: int_filter_def bind_exn_def split: if_splits sum.splits)

lemma columns_search_filter: "search_filter env v df = Inr df' \<Longrightarrow> columns df' = columns df"
  by (auto simp: search_filter_def split: val.splits)

lemma bind_exn_Inr:
  "bind_exn m f = Inr y \<Longrightarrow> \<exists>x. m = Inr x \<and> f x = Inr y"
  by (cases m) (simp_all add: bind_exn_def)

lemma columns_before_dates:
  assumes "before_dates env df filters = Inr df'"
  shows "columns df' = columns df"
proof -
  from assms obtain r3 r4 where
    r3: "(if active filters ''year''
          then int_filter env ''Year'' (fget filters ''year'')
                 (if active filters ''product''
                  then eq_filter (find_column df [''Product'', ''Coverage'']) (fget filters ''product'')
                    (if active filters ''dealer''
                     then eq_filter (find_column df [''Dealer'', ''Dealer AJA'']) (fget filters ''dealer'') df
                     else df)
                  else (if active filters ''dealer''
                     then eq_filter (find_column df [''Dealer'', ''Dealer AJA'']) (fget filters ''dealer'') df
                     else df))
          else Inr (if active filters ''product''
                  then eq_filter (find_column df [''Product'', ''Coverage'']) (fget filters ''product'')
                    (if active filters ''dealer''
                     then eq_filter (find_column df [''Dealer'', ''Dealer AJA'']) (fget filters ''dealer'') df
                     else df)
                  else (if active filters ''dealer''
                     then eq_filter (find_column df [''Dealer'', ''Dealer AJA'']) (fget filters ''dealer'') df
                     else df))) = Inr r3"
    and r4: "(if active filters ''month'' then int_filter env ''Month'' (fget filters ''month'') r3 else Inr r3) = Inr r4"
    and d: "df' = (if active filters ''make''
              then eq_filter (present df ''Make'') (fget filters ''make'') r4 else r4)"
    unfolding before_dates_def Let_def by (auto dest!: bind_exn_Inr)
  from r3 have "columns r3 = columns df"
    by (auto split: if_splits dest: columns_int_filter)
  with r4 have "columns r4 = columns df"
    by (auto split: if_splits dest: columns_int_filter)
  with d show ?thesis by simp
qed

lemma columns_after_dates:
  assumes "after_dates env df filters r7 = Inr df'"
  shows "columns df' = columns r7"
proof -
  from assms obtain r8 where
    r8: "(if truthy (fget filters ''search'') then search_filter env (fget filters ''search'') r7 else Inr r7) = Inr r8"
    and d: "df' = (if active filters ''claim_status''
            then eq_filter (present df ''Claim Status'') (fget filters ''claim_status'') r8
            else r8)"
    unfolding after_dates_def by (auto dest!: bind_exn_Inr)
  from r8 have "columns r8 = columns r7"
    by (auto split: if_splits dest: columns_search_filter)
  with d show ?thesis by simp
qed

lemma columns_apply_filters:
  assumes "apply_filters env df filters = Inr df'"
  shows "columns df' = columns df"
proof -
  from assms obtain r5 where r5: "before_dates env df filters = Inr r5"
    and a: "after_dates env df filters (date_to_filter env filters (date_from_filter env filters r5)) = Inr df'"
    unfolding apply_filters_def by (auto dest!: bind_exn_Inr)
  from columns_after_dates [OF a] columns_before_dates [OF r5] show ?thesis by simp
qed

lemma columns_sort_frame [simp]: "columns (sort_frame env sort_by sort_dir df) = columns df"
  by (simp add: sort_frame_def split: option.splits)

lemma columns_convert_dates [simp]: "columns (convert_dates env whole df) = columns df"
  by (simp add: convert_dates_def)

lemma length_convert_dates [simp]: "length (rows (convert_dates env whole df)) = length (rows df)"
  by (simp add: convert_dates_def)

lemma length_to_dict_records [simp]: "length (to_dict_records df) = length (rows df)"
  by (simp add: to_dict_records_def)

subsection \<open>Pagination\<close>





subsection \<open>The row identifier in a page\<close>

text \<open>
  Claim C9, as amended. For every state in which the table is loaded and every page
  \<^verbatim>\<open>get_raw_data\<close> returns: the returned column list is the list of the working frame's
  labels without \<^verbatim>\<open>_row_id\<close>, while every returned row record is keyed by all labels of
  the working frame, \<^verbatim>\<open>_row_id\<close> among them (the caller addresses edits by it).
\<close>

theorem raw_data_row_id:
  assumes "named_frame st table = Some whole"
    and "get_raw_data env table page limit filters sort_by sort_dir st = Inr p"
  shows "out_columns p = Some (filter (\<lambda>c. c \<noteq> ''_row_id'') (columns whole)) \<and>
         ''_row_id'' \<notin> set (filter (\<lambda>c. c \<noteq> ''_row_id'') (columns whole)) \<and>
         (\<forall>r \<in> set (out_rows p). map fst r = columns whole)"
proof -
  from assms obtain filtered where f: "apply_filters env whole (or_empty filters) = Inr filtered"
    by (cases "apply_filters env whole (or_empty filters)") (auto simp: get_raw_data_def bind_exn_def)
  note c = columns_apply_filters [OF f]
  from assms f have l: "limit \<noteq> 0"
    by (auto simp: get_raw_data_def bind_exn_def Let_def split: if_splits)
  define df where "df = sort_frame env sort_by sort_dir filtered"
  define pages where "pages = max 1 ((int (length (rows df)) + limit - 1) div limit)"
  define page' where "page' = max 1 (min page pages)"
  define res where "res = convert_dates env whole
    (df\<lparr> rows := iloc ((page' - 1) * limit) ((page' - 1) * limit + limit) (rows df) \<rparr>)"
  from assms f l have "p =
      \<lparr> out_rows = to_dict_records res,
        out_columns = Some (filter (\<lambda>c. c \<noteq> ''_row_id'') (columns res)),
        out_total = int (length (rows df)), out_page = page', out_pages = pages,
        out_limit = Some limit \<rparr>"
    by (simp add: get_raw_data_def bind_exn_def Let_def df_def pages_def page'_def res_def)
  then have p: "out_rows p = to_dict_records res"
      "out_columns p = Some (filter (\<lambda>c. c \<noteq> ''_row_id'') (columns res))"
    by simp_all
  have res: "columns res = columns whole" by (simp add: res_def df_def c)
  from p(1) res have "\<forall>r \<in> set (out_rows p). map fst r = columns whole"
    by (auto simp: to_dict_records_def comp_def)
  with p(2) res show ?thesis by simp
qed

theorem raw_data_row_id_witness:
  "(case get_raw_data demo_env ''claims'' 1 100 None None ''asc'' demo_state of
      Inr p \<Rightarrow>
        out_columns p = Some [''Policy No'', ''Claim Status'', ''Total Auth Amount''] \<and>
        map (map fst) (out_rows p) =
          [[''_row_id'', ''Policy No'', ''Claim Status'', ''Total Auth Amount''],
           [''_row_id'', ''Policy No'', ''Claim Status'', ''Total Auth Amount'']]
    | Inl e \<Rightarrow> False)"
proof -
  have nf: "named_frame demo_state ''claims'' = Some demo_claims_ids"
    by (simp add: named_frame_def demo_frames)
  have "\<exists>p. get_raw_data demo_env ''claims'' 1 100 None None ''asc'' demo_state = Inr p \<and>
            length (out_rows p) = 2"
    by (simp add: get_raw_data_def nf or_empty_def apply_filters_empty bind_exn_def Let_def
        sort_frame_def iloc_def)
       (simp add: demo_claims_ids_def demo_claims_def)
  then obtain p where p: "get_raw_data demo_env ''claims'' 1 100 None None ''asc'' demo_state = Inr p"
    "length (out_rows p) = 2" by blast
  from raw_data_row_id [OF nf p(1)] have
    c: "out_columns p = Some (filter (\<lambda>c. c \<noteq> ''_row_id'') (columns demo_claims_ids))"
    and k: "\<forall>r \<in> set (out_rows p). map fst r = columns demo_claims_ids"
    by simp_all
  from p(2) obtain a b where ab: "out_rows p = [a, b]"
    by (cases "out_rows p"; cases "tl (out_rows p)") auto
  with k have "map (map fst) (out_rows p) = [columns demo_claims_ids, columns demo_claims_ids]"
    by simp
  with c show ?thesis
    by (simp add: p(1) demo_claims_ids_def demo_claims_def)
qed

theorem raw_data_row_id_counterexample:
  "get_raw_data demo_env ''sales'' 1 2 None None ''asc'' demo_state =
     Inr \<lparr> out_rows =
             [[(''_row_id'', VInt 0), (''Policy No'', VStr ''A''), (''Dealer'', VStr ''North''),
               (''Make'', VStr ''Audi''), (''Gross Premium'', VNum 1000)],
              [(''_row_id'', VInt 1), (''Policy No'', VStr ''B''), (''Dealer'', VStr ''North''),
               (''Make'', VStr ''Audi''), (''Gross Premium'', VNum 2000)]],
           out_columns = Some [''Policy No'', ''Dealer'', ''Make'', ''Gross Premium''],
           out_total = 3, out_page = 1, out_pages = 2, out_limit = Some 2 \<rparr>"
  by (simp add: get_raw_data_def named_frame_def demo_frames or_empty_def apply_filters_empty
        bind_exn_def sort_frame_def iloc_def Let_def)
     (simp add: convert_dates_def to_dict_records_def datetime_col_def series_def
        demo_sales_ids_def demo_sales_def mk_row_def)

subsection \<open>The date bounds\<close>

lemma fget_drop_key: "fget (drop_key k f) k' = (if k' = k then VNA else fget f k')"
proof -
  have "map_of (filter (\<lambda>p. fst p \<noteq> k) f) k' = (if k' = k then None else map_of f k')"
    by (induction f) auto
  then show ?thesis by (simp add: fget_def drop_key_def)
qed

lemma active_drop_key: "active (drop_key k f) k' = (if k' = k then False else active f k')"
  by (simp add: active_def fget_drop_key)



















end
